theory Spec2Isabelle
  imports Complex_Main "HOL-Library.AList" "HOL-Library.Char_ord" "HOL-Library.List_Lexorder"
begin

section \<open>Solarview: the Growatt synchronisation engine and the heatmap projection\<close>

text \<open>
  A shallow embedding of \<^verbatim>\<open>solarview.py\<close>. The power of a sample is a Python
  float with its infinities and its NaN (\<open>pyfloat\<close>); the floats of energies and pixel
  coordinates are modelled by the real numbers they denote; Python integers are \<open>int\<close>;
  a Python \<open>dict\<close> is an association list in insertion order, written with
  \<open>AList.update\<close> (overwrite in place, else append at the end), which is the order a
  Python dictionary iterates in.
\<close>

subsection \<open>Projection: the colour table\<close>

text \<open>
  The upper bounds of \<^verbatim>\<open>Projection.power_to_color_table\<close> are the integers
  \<^verbatim>\<open>0, 500, ..., 4000\<close> and \<^verbatim>\<open>float("inf")\<close>.
\<close>

datatype bound = Fin int | Infinity

text \<open>
  What \<^verbatim>\<open>float(...)\<close> can give for the power of a sample: a number, an infinity or
  NaN.
\<close>

datatype pyfloat = Float real | PlusInf | MinusInf | NaN

text \<open>
  \<^verbatim>\<open>power <= upperbound\<close>: a comparison with NaN is false, also against
  \<^verbatim>\<open>float("inf")\<close>.
\<close>

fun power_le :: "pyfloat \<Rightarrow> bound \<Rightarrow> bool" where
  "power_le (Float x) (Fin b) = (x \<le> of_int b)"
| "power_le (Float x) Infinity = True"
| "power_le PlusInf (Fin b) = False"
| "power_le PlusInf Infinity = True"
| "power_le MinusInf ub = True"
| "power_le NaN ub = False"

record Projection =
  height :: int
  topmargin :: int
  bottommargin :: int
  leftmargin :: int
  rightmargin :: int
  linewidth :: int
  pixels_per_day :: int
  width :: int
  pixels_per_kwh :: int
  pixels_per_hour :: int
  fiveoclockbase :: int
  power_to_color_table :: "(bound \<times> string) list"

text \<open>\<^verbatim>\<open>Projection.__init__\<close>.\<close>

definition Projection_init :: Projection where
  "Projection_init =
     (let height = 800; topmargin = 50; bottommargin = 50; leftmargin = 50;
          rightmargin = 50; linewidth = 2; pixels_per_kwh = 6
      in \<lparr> height = height, topmargin = topmargin, bottommargin = bottommargin,
           leftmargin = leftmargin, rightmargin = rightmargin, linewidth = linewidth,
           pixels_per_day = linewidth + 1,
           width = (linewidth + 1) * 365 + leftmargin + rightmargin,
           pixels_per_kwh = pixels_per_kwh, pixels_per_hour = 30,
           fiveoclockbase = height - bottommargin - 35 * pixels_per_kwh,
           power_to_color_table =
             [(Fin 0, ''#C0C0C0''), (Fin 500, ''#87CEFA''), (Fin 1000, ''#00FF00''),
              (Fin 2000, ''#FFFF00''), (Fin 3000, ''#FFA500''), (Fin 4000, ''#FF0000''),
              (Infinity, ''#B00000'')] \<rparr>)"

text \<open>
  \<^verbatim>\<open>Projection.power_to_color\<close>: the \<^verbatim>\<open>for\<close> loop over the table returns at the
  first bucket with \<^verbatim>\<open>power <= upperbound\<close>; falling off the end of the loop
  returns Python's \<^verbatim>\<open>None\<close>.
\<close>

fun scan_table :: "(bound \<times> string) list \<Rightarrow> pyfloat \<Rightarrow> string option" where
  "scan_table [] pw = None"
| "scan_table ((upperbound, color) # rest) pw =
     (if power_le pw upperbound then Some color else scan_table rest pw)"

definition power_to_color :: "Projection \<Rightarrow> pyfloat \<Rightarrow> string option" where
  "power_to_color prj pw = scan_table (power_to_color_table prj) pw"

subsection \<open>Strings and numbers of the Python library\<close>

text \<open>
  The library functions the program calls on strings, modelled on the inputs the
  program gives them. \<open>py_str\<close> is \<^verbatim>\<open>str(n)\<close> of an integer, \<open>py_int\<close> is
  \<^verbatim>\<open>int(s)\<close> (optional ASCII white space around an optional sign and decimal digits,
  single underscores allowed between digits; \<open>None\<close> stands for \<^verbatim>\<open>ValueError\<close>),
  \<open>split_sep\<close> is \<^verbatim>\<open>s.split(sep)\<close> for a one-character separator and
  \<open>replace_all\<close> is \<^verbatim>\<open>s.replace(old, new)\<close>.
\<close>

definition digit_char :: "int \<Rightarrow> char" where
  "digit_char n =
     (case map_of (zip [0, 1, 2, 3, 4, 5, 6, 7, 8, 9] ''0123456789'') n of
        Some c \<Rightarrow> c | None \<Rightarrow> CHR ''0'')"

function digits_of :: "int \<Rightarrow> string" where
  "digits_of n = (if n < 10 then [digit_char n] else digits_of (n div 10) @ [digit_char (n mod 10)])"
  by pat_completeness auto
termination
  by (relation "measure nat") auto

declare digits_of.simps [simp del]

definition py_str :: "int \<Rightarrow> string" where
  "py_str n = (if n < 0 then CHR ''-'' # digits_of (- n) else digits_of n)"

definition pad_left :: "nat \<Rightarrow> char \<Rightarrow> string \<Rightarrow> string" where
  "pad_left w c s = replicate (w - length s) c @ s"

definition digit_val :: "char \<Rightarrow> int option" where
  "digit_val c = map_of (zip ''0123456789'' [0, 1, 2, 3, 4, 5, 6, 7, 8, 9]) c"

definition is_digit :: "char \<Rightarrow> bool" where
  "is_digit c = (c \<in> set ''0123456789'')"

fun digits_val :: "int \<Rightarrow> string \<Rightarrow> int option" where
  "digits_val acc [] = Some acc"
| "digits_val acc (c # cs) =
     (case digit_val c of None \<Rightarrow> None | Some v \<Rightarrow> digits_val (10 * acc + v) cs)"

definition parse_digits :: "string \<Rightarrow> int option" where
  "parse_digits s = (if s = [] then None else digits_val 0 s)"

definition is_space :: "char \<Rightarrow> bool" where
  "is_space c = (c \<in> {CHR '' '', CHR 0x09, CHR 0x0A, CHR 0x0B, CHR 0x0C, CHR 0x0D})"

definition strip :: "string \<Rightarrow> string" where
  "strip s = rev (dropWhile is_space (rev (dropWhile is_space s)))"

fun underscores_ok :: "string \<Rightarrow> bool" where
  "underscores_ok [] = True"
| "underscores_ok [c] = is_digit c"
| "underscores_ok (c # d # cs) =
     (if c = CHR ''_'' then False
      else if d = CHR ''_'' then (cs \<noteq> [] \<and> underscores_ok cs)
      else underscores_ok (d # cs))"

definition int_digits :: "string \<Rightarrow> int option" where
  "int_digits s =
     (if underscores_ok s then parse_digits (filter (\<lambda>c. c \<noteq> CHR ''_'') s) else None)"

definition py_int :: "string \<Rightarrow> int option" where
  "py_int s =
     (case strip s of
        [] \<Rightarrow> None
      | c # cs \<Rightarrow>
          if c = CHR ''-'' then map_option uminus (int_digits cs)
          else if c = CHR ''+'' then int_digits cs
          else int_digits (c # cs))"

fun split_from :: "char \<Rightarrow> string \<Rightarrow> string \<Rightarrow> string list" where
  "split_from sep cur [] = [rev cur]"
| "split_from sep cur (c # cs) =
     (if c = sep then rev cur # split_from sep [] cs else split_from sep (c # cur) cs)"

definition split_sep :: "char \<Rightarrow> string \<Rightarrow> string list" where
  "split_sep sep s = split_from sep [] s"

function replace_all :: "string \<Rightarrow> string \<Rightarrow> string \<Rightarrow> string" where
  "replace_all old new s =
     (if old = [] \<or> s = [] then s
      else if take (length old) s = old then new @ replace_all old new (drop (length old) s)
      else hd s # replace_all old new (tl s))"
  by pat_completeness auto
termination
  by (relation "measure (\<lambda>(old, new, s). length s)") auto

declare replace_all.simps [simp del]

subsection \<open>Dates\<close>

text \<open>
  A \<^verbatim>\<open>datetime\<close> is kept as its calendar date. The program builds every start date
  at midnight and only takes \<^verbatim>\<open>.days\<close> of a difference to a start date, so the time
  of day of \<^verbatim>\<open>now\<close> never changes a result: \<^verbatim>\<open>(now - start).days\<close> is the
  difference of the two ordinals.
\<close>

record datetime =
  dt_year :: int
  dt_month :: int
  dt_day :: int

definition is_leap :: "int \<Rightarrow> bool" where
  "is_leap y = (y mod 4 = 0 \<and> (y mod 100 \<noteq> 0 \<or> y mod 400 = 0))"

definition days_in_month :: "int \<Rightarrow> int \<Rightarrow> int" where
  "days_in_month y m =
     (if m = 2 then (if is_leap y then 29 else 28)
      else if m \<in> {4, 6, 9, 11} then 30 else 31)"

definition valid_date :: "int \<Rightarrow> int \<Rightarrow> int \<Rightarrow> bool" where
  "valid_date y m d = (1 \<le> y \<and> y \<le> 9999 \<and> 1 \<le> m \<and> m \<le> 12 \<and> 1 \<le> d \<and> d \<le> days_in_month y m)"

definition days_before_year :: "int \<Rightarrow> int" where
  "days_before_year y = (let z = y - 1 in z * 365 + z div 4 - z div 100 + z div 400)"

definition days_before_month :: "int \<Rightarrow> int \<Rightarrow> int" where
  "days_before_month y m = sum_list (map (days_in_month y) [1 .. m - 1])"

text \<open>\<^verbatim>\<open>date.toordinal()\<close>.\<close>

definition toordinal :: "datetime \<Rightarrow> int" where
  "toordinal d = days_before_year (dt_year d) + days_before_month (dt_year d) (dt_month d) + dt_day d"

text \<open>\<^verbatim>\<open>(d1 - d2).days\<close>.\<close>

definition diff_days :: "datetime \<Rightarrow> datetime \<Rightarrow> int" where
  "diff_days d1 d2 = toordinal d1 - toordinal d2"

text \<open>\<^verbatim>\<open>d + dt.timedelta(1)\<close>.\<close>

definition next_day :: "datetime \<Rightarrow> datetime" where
  "next_day d =
     (if dt_day d < days_in_month (dt_year d) (dt_month d) then d\<lparr>dt_day := dt_day d + 1\<rparr>
      else if dt_month d < 12 then d\<lparr>dt_month := dt_month d + 1, dt_day := 1\<rparr>
      else \<lparr>dt_year = dt_year d + 1, dt_month = 1, dt_day = 1\<rparr>)"

text \<open>
  \<^verbatim>\<open>daterange(start_date, end_date)\<close> yields \<^verbatim>\<open>start_date + dt.timedelta(n)\<close> for
  \<^verbatim>\<open>n\<close> in \<^verbatim>\<open>range((end_date - start_date).days + 1)\<close>: the start date and its
  successors, none at all when the count is not positive.
\<close>

fun dates_from :: "datetime \<Rightarrow> nat \<Rightarrow> datetime list" where
  "dates_from d 0 = []"
| "dates_from d (Suc n) = d # dates_from (next_day d) n"

definition daterange :: "datetime \<Rightarrow> datetime \<Rightarrow> datetime list" where
  "daterange start_date end_date = dates_from start_date (nat (diff_days end_date start_date + 1))"

datatype error =
  LoginError | GrowattApiError | ConnectionError
  | ValueError | TypeError | IndexError | KeyError | AttributeError

text \<open>\<^verbatim>\<open>dt.datetime(y, m, d)\<close> raises \<^verbatim>\<open>ValueError\<close> outside the calendar.\<close>

definition mk_datetime :: "int \<Rightarrow> int \<Rightarrow> int \<Rightarrow> error + datetime" where
  "mk_datetime y m d =
     (if valid_date y m d then Inr \<lparr>dt_year = y, dt_month = m, dt_day = d\<rparr> else Inl ValueError)"

text \<open>
  \<^verbatim>\<open>d.strftime("%Y-%m-%d")\<close> and \<^verbatim>\<open>"{:4}-{:02}-".format(y, m)\<close>; the first pads the
  year with zeros and the second with spaces, which is the same from the year 1000 on.
\<close>

definition strftime_ymd :: "datetime \<Rightarrow> string" where
  "strftime_ymd d =
     pad_left 4 CHR ''0'' (py_str (dt_year d)) @ ''-'' @ pad_left 2 CHR ''0'' (py_str (dt_month d))
       @ ''-'' @ pad_left 2 CHR ''0'' (py_str (dt_day d))"

definition strftime_ym :: "datetime \<Rightarrow> string" where
  "strftime_ym d =
     pad_left 4 CHR ''0'' (py_str (dt_year d)) @ ''-'' @ pad_left 2 CHR ''0'' (py_str (dt_month d))"

definition format_monthstr :: "int \<Rightarrow> int \<Rightarrow> string" where
  "format_monthstr y m =
     pad_left 4 CHR '' '' (py_str y) @ ''-'' @ pad_left 2 CHR ''0'' (py_str m) @ ''-''"

definition format_jan1 :: "int \<Rightarrow> string" where
  "format_jan1 y = pad_left 4 CHR '' '' (py_str y) @ ''-01-01''"

text \<open>
  \<^verbatim>\<open>dt.datetime.strptime(s, "%Y-%m-%d")\<close>: four digits, a month of one or two
  digits in \<^verbatim>\<open>1..12\<close>, a day of one or two digits (or a space and a digit) in
  \<^verbatim>\<open>1..31\<close>, then the calendar check of the constructor; anything else is
  \<^verbatim>\<open>ValueError\<close>.
\<close>

definition month_field :: "string \<Rightarrow> int option" where
  "month_field s =
     (if length s = 1 \<or> length s = 2 then
        (case parse_digits s of
           Some v \<Rightarrow> if 1 \<le> v \<and> v \<le> 12 then Some v else None
         | None \<Rightarrow> None)
      else None)"

definition day_field :: "string \<Rightarrow> int option" where
  "day_field s =
     (let t = (if length s = 2 \<and> hd s = CHR '' '' then tl s else s) in
      if length s = 1 \<or> length s = 2 then
        (case parse_digits t of
           Some v \<Rightarrow> if 1 \<le> v \<and> v \<le> 31 then Some v else None
         | None \<Rightarrow> None)
      else None)"

definition strptime_ymd :: "string \<Rightarrow> error + datetime" where
  "strptime_ymd s =
     (case split_sep CHR ''-'' s of
        [ys, ms, ds] \<Rightarrow>
          (if length ys = 4 then
             (case (parse_digits ys, month_field ms, day_field ds) of
                (Some y, Some m, Some d) \<Rightarrow> mk_datetime y m d
              | _ \<Rightarrow> Inl ValueError)
           else Inl ValueError)
      | _ \<Rightarrow> Inl ValueError)"

text \<open>\<^verbatim>\<open>isodate_diff\<close>: the difference in days of two ISO dates.\<close>

definition isodate_diff :: "string \<Rightarrow> string \<Rightarrow> error + int" where
  "isodate_diff d1_str d2_str =
     (case strptime_ymd d1_str of
        Inl e \<Rightarrow> Inl e
      | Inr d1 \<Rightarrow>
          (case strptime_ymd d2_str of
             Inl e \<Rightarrow> Inl e
           | Inr d2 \<Rightarrow> Inr (diff_days d1 d2)))"

text \<open>
  \<^verbatim>\<open>isotime_to_m\<close>: minutes since midnight of \<^verbatim>\<open>"hh:mm"\<close> or \<^verbatim>\<open>"hh:mm:ss"\<close>.
  \<^verbatim>\<open>int\<close> raises \<^verbatim>\<open>ValueError\<close> on a field that is no number, \<^verbatim>\<open>m[1]\<close> raises
  \<^verbatim>\<open>IndexError\<close> when there is no colon.
\<close>

fun sequence_opt :: "'a option list \<Rightarrow> 'a list option" where
  "sequence_opt [] = Some []"
| "sequence_opt (None # xs) = None"
| "sequence_opt (Some x # xs) = map_option ((#) x) (sequence_opt xs)"

definition isotime_to_m :: "string \<Rightarrow> error + real" where
  "isotime_to_m timestr =
     (case sequence_opt (map py_int (split_sep CHR '':'' timestr)) of
        None \<Rightarrow> Inl ValueError
      | Some m \<Rightarrow>
          (case m of
             h # mi # rest \<Rightarrow>
               Inr (real_of_int (h * 60 + mi)
                     + (case rest of [] \<Rightarrow> 0 | sec # _ \<Rightarrow> real_of_int sec / 60))
           | _ \<Rightarrow> Inl IndexError))"

subsection \<open>The Growatt server and the state of a synchronisation\<close>

record ShinePhoneDayData =
  datestr :: string
  todayenergy :: real
  samples :: "(string \<times> pyfloat) list"

definition ShinePhoneDayData_init :: "string \<Rightarrow> real \<Rightarrow> ShinePhoneDayData" where
  "ShinePhoneDayData_init ds e = \<lparr>datestr = ds, todayenergy = e, samples = []\<rparr>"

text \<open>The tuple \<^verbatim>\<open>(year_complete, yearproduction, days)\<close> a pickle file holds.\<close>

type_synonym pickle = "bool \<times> real \<times> (string \<times> ShinePhoneDayData) list"

datatype Timespan = Ts_day | Ts_month | Ts_year | Ts_total

fun format_date :: "Timespan \<Rightarrow> datetime \<Rightarrow> string" where
  "format_date Ts_day d = strftime_ymd d"
| "format_date Ts_month d = strftime_ym d"
| "format_date Ts_year d = pad_left 4 CHR ''0'' (py_str (dt_year d))"
| "format_date Ts_total d = []"

text \<open>The HTTP requests of \<^verbatim>\<open>GrowattApi\<close>, with the timespan and the formatted date.\<close>

datatype request = LoginAPI | PlantListAPI | NewPlantDetailAPI Timespan string | LogoutAPI

text \<open>
  What the program does to the world, in the order it does it: a request sent to the
  server, a value given to the progress sink, a message box shown.
\<close>

datatype event = Request request | Progress int | MessageBox string string

text \<open>
  What the server answers, after \<^verbatim>\<open>_back_success_response\<close> and the conversions
  \<^verbatim>\<open>int(y)\<close> and \<^verbatim>\<open>float(v)\<close> of the numeric fields: the plant identifiers of the
  plant list, the years and their production, for a day the plant name and the power
  of the samples under their \<^verbatim>\<open>"date time"\<close> keys, for a month the energy under the day
  keys. \<open>Inl\<close> is the exception the call raises.
\<close>

record server =
  login_response :: "error + unit"
  plant_list_response :: "error + string list"
  total_response :: "error + (int \<times> real) list"
  day_response :: "string \<Rightarrow> error + string \<times> (string \<times> pyfloat) list"
  month_response :: "string \<Rightarrow> error + (string \<times> real) list"
  logout_response :: "error + unit"

text \<open>
  The attributes of a \<^verbatim>\<open>GrowattServerData\<close> object, followed by the world it acts on:
  the pickle files of \<^verbatim>\<open>g.pickle_dir\<close> by name and the events so far.
  \<open>setprogress\<close> tells whether a sink was supplied; an attribute not yet assigned is
  \<open>None\<close>.
\<close>

record GrowattServerData =
  setprogress :: bool
  yearsavailableonserver :: "(int \<times> real) list"
  days :: "(string \<times> ShinePhoneDayData) list"
  year_complete :: bool
  year :: int
  plant_id :: "string option"
  plant_name :: "string option"
  yearproduction :: "real option"
  yearsavailable :: "int list"
  files :: "(string \<times> pickle) list"
  events :: "event list"

definition send :: "request \<Rightarrow> GrowattServerData \<Rightarrow> GrowattServerData" where
  "send r s = s\<lparr>events := events s @ [Request r]\<rparr>"

subsection \<open>\<^verbatim>\<open>downloadgrowattdata\<close>\<close>

text \<open>
  The inner loop over the samples of one day: \<^verbatim>\<open>split(" ")[1]\<close> raises
  \<^verbatim>\<open>IndexError\<close> on a key without a space. The object is updated in place, so the
  state at an exception holds what was merged before it.
\<close>

fun merge_samples ::
  "string \<Rightarrow> (string \<times> pyfloat) list \<Rightarrow> GrowattServerData
     \<Rightarrow> GrowattServerData \<times> error option" where
  "merge_samples ds [] s = (s, None)"
| "merge_samples ds ((datetimestampstr, actualpower) # rest) s =
     (case split_sep CHR '' '' datetimestampstr of
        _ # timestampstr # _ \<Rightarrow>
          (case map_of (days s) ds of
             None \<Rightarrow> (s, Some KeyError)
           | Some r \<Rightarrow>
               merge_samples ds rest
                 (s\<lparr>days := AList.update ds
                     (r\<lparr>samples := AList.update timestampstr actualpower (samples r)\<rparr>) (days s)\<rparr>))
      | _ \<Rightarrow> (s, Some IndexError))"

definition ensure_day :: "string \<Rightarrow> GrowattServerData \<Rightarrow> GrowattServerData" where
  "ensure_day ds s =
     (if map_of (days s) ds = None
      then s\<lparr>days := AList.update ds (ShinePhoneDayData_init ds 0) (days s)\<rparr> else s)"

text \<open>
  The loop over the dates. The sink is called at the head of the iteration, before that
  day is asked for, with \<^verbatim>\<open>int(100 * daycount / nr_of_days)\<close>: the quotient is not
  negative, so \<^verbatim>\<open>int\<close> is the floor of the exact quotient.
\<close>

fun day_loop ::
  "server \<Rightarrow> int \<Rightarrow> datetime list \<Rightarrow> int \<Rightarrow> GrowattServerData
     \<Rightarrow> GrowattServerData \<times> error option" where
  "day_loop srv nr_of_days [] daycount s = (s, None)"
| "day_loop srv nr_of_days (d # ds) daycount s =
     (let daycount' = (if setprogress s then daycount + 1 else daycount);
          s1 = (if setprogress s
                then s\<lparr>events := events s @ [Progress ((100 * daycount') div nr_of_days)]\<rparr>
                else s);
          s2 = send (NewPlantDetailAPI Ts_day (format_date Ts_day d)) s1
      in case day_response srv (format_date Ts_day d) of
           Inl e \<Rightarrow> (s2, Some e)
         | Inr (plantName, data) \<Rightarrow>
             (case merge_samples (strftime_ymd d) data
                     (ensure_day (strftime_ymd d) (s2\<lparr>plant_name := Some plantName\<rparr>)) of
                (s3, Some e) \<Rightarrow> (s3, Some e)
              | (s3, None) \<Rightarrow> day_loop srv nr_of_days ds daycount' s3))"

text \<open>The distinct \<^verbatim>\<open>(year, month)\<close> pairs of the range, in order of first occurrence.\<close>

fun months_of :: "datetime list \<Rightarrow> (int \<times> int) list \<Rightarrow> (int \<times> int) list" where
  "months_of [] months = months"
| "months_of (d # ds) months =
     months_of ds
       (if (dt_year d, dt_month d) \<in> set months then months
        else months @ [(dt_year d, dt_month d)])"

fun merge_month ::
  "string \<Rightarrow> (string \<times> real) list \<Rightarrow> GrowattServerData \<Rightarrow> GrowattServerData" where
  "merge_month monthstr [] s = s"
| "merge_month monthstr ((dy, etoday) # rest) s =
     (let ds = monthstr @ dy; s1 = ensure_day ds s
      in merge_month monthstr rest
           (case map_of (days s1) ds of
              None \<Rightarrow> s1
            | Some r \<Rightarrow> s1\<lparr>days := AList.update ds (r\<lparr>todayenergy := etoday\<rparr>) (days s1)\<rparr>))"

fun month_loop ::
  "server \<Rightarrow> (int \<times> int) list \<Rightarrow> GrowattServerData \<Rightarrow> GrowattServerData \<times> error option" where
  "month_loop srv [] s = (s, None)"
| "month_loop srv (m # ms) s =
     (case mk_datetime (fst m) (snd m) 1 of
        Inl e \<Rightarrow> (s, Some e)
      | Inr firstday \<Rightarrow>
          (let s1 = send (NewPlantDetailAPI Ts_month (format_date Ts_month firstday)) s
           in case month_response srv (format_date Ts_month firstday) of
                Inl e \<Rightarrow> (s1, Some e)
              | Inr monthdata \<Rightarrow>
                  month_loop srv ms (merge_month (format_monthstr (fst m) (snd m)) monthdata s1)))"

text \<open>
  The dictionary comprehension over the answer to \<^verbatim>\<open>Timespan.total\<close>: the years
  with a production above zero.
\<close>

fun years_on_server :: "(int \<times> real) list \<Rightarrow> (int \<times> real) list \<Rightarrow> (int \<times> real) list" where
  "years_on_server [] acc = acc"
| "years_on_server ((y, v) # rest) acc =
     years_on_server rest (if v > 0 then AList.update y v acc else acc)"

text \<open>The body of the \<^verbatim>\<open>with\<close> block after the login.\<close>

definition fetch_all ::
  "server \<Rightarrow> datetime \<Rightarrow> datetime \<Rightarrow> GrowattServerData \<Rightarrow> GrowattServerData \<times> error option" where
  "fetch_all srv start_date end_date s =
     (let s1 = send PlantListAPI s
      in case plant_list_response srv of
           Inl e \<Rightarrow> (s1, Some e)
         | Inr [] \<Rightarrow> (s1, Some IndexError)
         | Inr (pid # _) \<Rightarrow>
             (let s2 = send (NewPlantDetailAPI Ts_total [])
                         (s1\<lparr>plant_id := Some pid, plant_name := Some []\<rparr>)
              in case total_response srv of
                   Inl e \<Rightarrow> (s2, Some e)
                 | Inr data \<Rightarrow>
                     (let yrs = years_on_server data [];
                          s3 = s2\<lparr>yearsavailableonserver := yrs,
                                 yearproduction :=
                                   Some (case map_of yrs (dt_year start_date) of
                                           Some v \<Rightarrow> v | None \<Rightarrow> 0)\<rparr>;
                          nr_of_days = diff_days end_date start_date + 1
                      in case day_loop srv nr_of_days (daterange start_date end_date) 0 s3 of
                           (s4, Some e) \<Rightarrow> (s4, Some e)
                         | (s4, None) \<Rightarrow>
                             month_loop srv (months_of (daterange start_date end_date) []) s4)))"

text \<open>
  \<^verbatim>\<open>GrowattApi.login\<close> turns a \<^verbatim>\<open>GrowattApiError\<close> into \<^verbatim>\<open>LoginError\<close>, its
  subclass. \<^verbatim>\<open>__exit__\<close> logs out when the login succeeded, whatever the body did; an
  exception of the logout replaces the one of the body.
\<close>

definition is_GrowattApiError :: "error \<Rightarrow> bool" where
  "is_GrowattApiError e = (e = GrowattApiError \<or> e = LoginError)"

definition with_GrowattApi ::
  "server \<Rightarrow> datetime \<Rightarrow> datetime \<Rightarrow> GrowattServerData \<Rightarrow> GrowattServerData \<times> error option" where
  "with_GrowattApi srv start_date end_date s =
     (let s0 = send LoginAPI s
      in case login_response srv of
           Inl e \<Rightarrow> (s0, Some (if is_GrowattApiError e then LoginError else e))
         | Inr _ \<Rightarrow>
             (case fetch_all srv start_date end_date s0 of
                (s1, r) \<Rightarrow>
                  (case logout_response srv of
                     Inl e \<Rightarrow> (send LogoutAPI s1, Some e)
                   | Inr _ \<Rightarrow> (send LogoutAPI s1, r))))"

text \<open>
  The \<^verbatim>\<open>try\<close> statement: the three \<^verbatim>\<open>except\<close> clauses in their order, each showing
  a message box and giving \<^verbatim>\<open>False\<close>; any other exception leaves the method.
\<close>

definition showinfo :: "string \<Rightarrow> string \<Rightarrow> GrowattServerData \<Rightarrow> GrowattServerData" where
  "showinfo title msg s = s\<lparr>events := events s @ [MessageBox title msg]\<rparr>"

definition downloadgrowattdata ::
  "server \<Rightarrow> datetime \<Rightarrow> datetime \<Rightarrow> GrowattServerData \<Rightarrow> GrowattServerData \<times> (error + bool)" where
  "downloadgrowattdata srv start_date end_date s =
     (case with_GrowattApi srv start_date end_date s of
        (s1, None) \<Rightarrow> (s1, Inr True)
      | (s1, Some e) \<Rightarrow>
          if is_GrowattApiError e
          then (showinfo ''Connection Error'' ''No connection to Growatt servers'' s1, Inr False)
          else if e = ConnectionError
          then (showinfo ''Connection Error'' ''No connection to Growatt servers'' s1, Inr False)
          else if e = LoginError
          then (showinfo ''Login Error'' ''Username / password not correct'' s1, Inr False)
          else (s1, Inl e))"

subsection \<open>The pickle files\<close>

text \<open>
  Files are named inside \<^verbatim>\<open>g.pickle_dir\<close>; \<^verbatim>\<open>glob\<close> is modelled for a template
  whose only wildcard is \<^verbatim>\<open>?\<close>, and yields the files in the order of the directory.
\<close>

definition picklefile :: "string \<Rightarrow> int \<Rightarrow> string" where
  "picklefile template y = replace_all ''????'' (py_str y) template"

definition glob_match :: "string \<Rightarrow> string \<Rightarrow> bool" where
  "glob_match template name = list_all2 (\<lambda>cf cd. cd = CHR ''?'' \<or> cf = cd) name template"

fun years_of_files :: "string \<Rightarrow> string list \<Rightarrow> int list \<Rightarrow> int list" where
  "years_of_files template [] years = years"
| "years_of_files template (f # fs) years =
     years_of_files template fs
       (case py_int (map fst (filter (\<lambda>(cf, cd). cd = CHR ''?'') (zip f template))) of
          Some y \<Rightarrow> years @ [y]
        | None \<Rightarrow> years)"

definition yearsavailablelocally :: "string \<Rightarrow> GrowattServerData \<Rightarrow> int list" where
  "yearsavailablelocally template s =
     years_of_files template (filter (glob_match template) (map fst (files s))) []"

definition dump_to_picklefile :: "string \<Rightarrow> int \<Rightarrow> GrowattServerData \<Rightarrow> error + GrowattServerData" where
  "dump_to_picklefile template y s =
     (case yearproduction s of
        None \<Rightarrow> Inl AttributeError
      | Some yp \<Rightarrow>
          Inr (s\<lparr>files := AList.update (picklefile template y) (year_complete s, yp, days s) (files s)\<rparr>))"

definition load_from_picklefile :: "string \<Rightarrow> int \<Rightarrow> GrowattServerData \<Rightarrow> GrowattServerData \<times> bool" where
  "load_from_picklefile template y s =
     (case map_of (files s) (picklefile template y) of
        Some (c, yp, ds) \<Rightarrow> (s\<lparr>year_complete := c, yearproduction := Some yp, days := ds\<rparr>, True)
      | None \<Rightarrow> (s, False))"

subsection \<open>\<^verbatim>\<open>GrowattServerData.__init__\<close>\<close>

text \<open>\<^verbatim>\<open>max\<close> of a non-empty list of strings, in the order of strings.\<close>

fun max_key :: "string list \<Rightarrow> string" where
  "max_key [] = []"
| "max_key (k # ks) = fold max ks k"

text \<open>
  The start date after the load: the latest key of a loaded non-empty map, January 1 of
  the year otherwise. A call without a year reaches \<^verbatim>\<open>dt.datetime(None, ...)\<close>, a
  \<^verbatim>\<open>TypeError\<close>.
\<close>

definition of_year :: "int option \<Rightarrow> (int \<Rightarrow> error + 'a) \<Rightarrow> error + 'a" where
  "of_year y f = (case y of None \<Rightarrow> Inl TypeError | Some v \<Rightarrow> f v)"

definition start_date_of ::
  "bool \<Rightarrow> int option \<Rightarrow> GrowattServerData \<Rightarrow> error + datetime" where
  "start_date_of loaded y s =
     (if loaded then
        (if length (days s) > 0 then strptime_ymd (max_key (map fst (days s)))
         else mk_datetime (year s) 1 1)
      else of_year y (\<lambda>v. mk_datetime v 1 1))"

definition end_date_of ::
  "datetime \<Rightarrow> bool \<Rightarrow> int option \<Rightarrow> error + datetime" where
  "end_date_of now loaded y =
     (if loaded then
        (if Some (dt_year now) = y then Inr now else of_year y (\<lambda>v. mk_datetime v 12 31))
      else
        (case y of
           None \<Rightarrow> Inr now
         | Some v \<Rightarrow> if v = dt_year now then Inr now else mk_datetime v 12 31))"

text \<open>
  The union of the local and the server years: the local list, then every server year
  not yet in it, then sorted.
\<close>

fun add_server_years :: "int list \<Rightarrow> int list \<Rightarrow> int list" where
  "add_server_years [] ys = ys"
| "add_server_years (y # rest) ys =
     add_server_years rest (if y \<in> set ys then ys else ys @ [y])"

definition set_yearsavailable :: "string \<Rightarrow> GrowattServerData \<Rightarrow> GrowattServerData" where
  "set_yearsavailable template s =
     s\<lparr>yearsavailable :=
         sort (add_server_years (map fst (yearsavailableonserver s))
                 (yearsavailablelocally template s))\<rparr>"

definition new_object :: "(string \<times> pickle) list \<Rightarrow> int \<Rightarrow> bool \<Rightarrow> GrowattServerData" where
  "new_object fs y sink =
     \<lparr> setprogress = sink, yearsavailableonserver = [], days = [], year_complete = False,
       year = y, plant_id = None, plant_name = None, yearproduction = None,
       yearsavailable = [], files = fs, events = [] \<rparr>"

text \<open>
  The constructor, for the server \<open>srv\<close>, the date \<open>now\<close>, the file name template,
  the files on disk, the year asked for and whether a progress sink is given. Its first
  part loads the cache and determines the range of dates: the first end date is computed
  (and may raise) before the load, and after a load the end date is computed again.
\<close>

definition load_and_range ::
  "datetime \<Rightarrow> string \<Rightarrow> (string \<times> pickle) list \<Rightarrow> int option \<Rightarrow> bool
     \<Rightarrow> error + GrowattServerData \<times> datetime \<times> datetime" where
  "load_and_range now template fs y sink =
     (let s0 = new_object fs (case y of None \<Rightarrow> dt_year now | Some v \<Rightarrow> v) sink
      in case end_date_of now False y of
           Inl e \<Rightarrow> Inl e
         | Inr end0 \<Rightarrow>
             (let (s1, loaded) = load_from_picklefile template (year s0) s0;
                  s2 = (if loaded
                        then s1\<lparr>plant_id := Some ''plant_id'', plant_name := Some ''plant_name''\<rparr>
                        else s1)
              in case start_date_of loaded y s2 of
                   Inl e \<Rightarrow> Inl e
                 | Inr start_date \<Rightarrow>
                     (case (if loaded then end_date_of now True y else Inr end0) of
                        Inl e \<Rightarrow> Inl e
                      | Inr end_date \<Rightarrow> Inr (s2, start_date, end_date))))"

text \<open>
  Its second part downloads unless the loaded year is complete, decides completeness and
  saves after a download that gave \<^verbatim>\<open>True\<close>, and collects the available years.
\<close>

definition download_and_save ::
  "server \<Rightarrow> datetime \<Rightarrow> string \<Rightarrow> GrowattServerData \<Rightarrow> datetime \<Rightarrow> datetime
     \<Rightarrow> error + GrowattServerData" where
  "download_and_save srv now template s start_date end_date =
     (if \<not> year_complete s then
        (case downloadgrowattdata srv start_date end_date s of
           (s1, Inl e) \<Rightarrow> Inl e
         | (s1, Inr False) \<Rightarrow> Inr (set_yearsavailable template s1)
         | (s1, Inr True) \<Rightarrow>
             (case dump_to_picklefile template (year s1)
                     (if dt_year start_date < dt_year now
                      then s1\<lparr>year_complete := True\<rparr> else s1) of
                Inl e \<Rightarrow> Inl e
              | Inr s2 \<Rightarrow> Inr (set_yearsavailable template s2)))
      else Inr (set_yearsavailable template s))"

definition GrowattServerData_init ::
  "server \<Rightarrow> datetime \<Rightarrow> string \<Rightarrow> (string \<times> pickle) list \<Rightarrow> int option \<Rightarrow> bool
     \<Rightarrow> error + GrowattServerData" where
  "GrowattServerData_init srv now template fs y sink =
     (case load_and_range now template fs y sink of
        Inl e \<Rightarrow> Inl e
      | Inr (s, start_date, end_date) \<Rightarrow> download_and_save srv now template s start_date end_date)"

subsection \<open>The renderer: \<^verbatim>\<open>plot_production_pil\<close>\<close>

text \<open>
  A call of \<^verbatim>\<open>draw.line\<close>: the coordinates, the fill (an RGB triple, a colour name, or
  \<^verbatim>\<open>None\<close>) and the width.
\<close>

datatype fill = RGB int int int | Color string

datatype draw = Line "real list" "fill option" int

text \<open>The heatmap segments of one day, over the sample keys in sorted order.\<close>

fun plot_samples ::
  "Projection \<Rightarrow> real \<Rightarrow> (string \<times> pyfloat) list \<Rightarrow> string list
     \<Rightarrow> draw list \<times> error option" where
  "plot_samples prj x smp [] = ([], None)"
| "plot_samples prj x smp (ts # rest) =
     (case isotime_to_m ts of
        Inl e \<Rightarrow> ([], Some e)
      | Inr time_of_day_m \<Rightarrow>
          (case map_of smp ts of
             None \<Rightarrow> ([], Some KeyError)
           | Some p \<Rightarrow>
               (let y = real_of_int (fiveoclockbase prj)
                          - ((time_of_day_m - 5 * 60) / 60) * real_of_int (pixels_per_hour prj);
                    seg = Line [x, y, x, y - (5 / 60) * real_of_int (pixels_per_hour prj)]
                            (map_option Color (power_to_color prj p)) (linewidth prj)
                in case plot_samples prj x smp rest of
                     (segs, r) \<Rightarrow> (seg # segs, r))))"

text \<open>
  The body of the loop over the days: the bar of the day's energy, drawn only if the day
  has samples, then the segments.
\<close>

definition plot_day ::
  "Projection \<Rightarrow> GrowattServerData \<Rightarrow> string \<Rightarrow> draw list \<times> error option" where
  "plot_day prj gsd d =
     (case isodate_diff d (format_jan1 (year gsd)) of
        Inl e \<Rightarrow> ([], Some e)
      | Inr n \<Rightarrow>
          (case map_of (days gsd) d of
             None \<Rightarrow> ([], Some KeyError)
           | Some r \<Rightarrow>
               (let x = real_of_int (leftmargin prj + n * pixels_per_day prj)
                          + real_of_int (pixels_per_day prj) / 2;
                    y_low = real_of_int (height prj - bottommargin prj);
                    bar = (if length (samples r) > 0
                           then [Line [x, y_low, x,
                                       y_low - todayenergy r * real_of_int (pixels_per_kwh prj)]
                                   (Some (RGB 0 0 128)) (linewidth prj)]
                           else [])
                in case plot_samples prj x (samples r) (sort (map fst (samples r))) of
                     (segs, e) \<Rightarrow> (bar @ segs, e))))"

fun plot_days ::
  "Projection \<Rightarrow> GrowattServerData \<Rightarrow> string list \<Rightarrow> draw list \<times> error option" where
  "plot_days prj gsd [] = ([], None)"
| "plot_days prj gsd (d # rest) =
     (case plot_day prj gsd d of
        (ls, Some e) \<Rightarrow> (ls, Some e)
      | (ls, None) \<Rightarrow> (case plot_days prj gsd rest of (ls', r) \<Rightarrow> (ls @ ls', r)))"

definition plot_production_pil :: "Projection \<Rightarrow> GrowattServerData \<Rightarrow> draw list \<times> error option" where
  "plot_production_pil prj gsd = plot_days prj gsd (map fst (days gsd))"

subsection \<open>The password digest\<close>

text \<open>
  \<^verbatim>\<open>hash_password\<close>, for the function \<open>md5_hexdigest\<close> of the library (the hexadecimal
  MD5 digest of the bytes of the password; a \<open>string\<close> here is the UTF-8 encoding).
  \<open>range_step2 n\<close> is \<^verbatim>\<open>range(0, n, 2)\<close>.
\<close>

definition range_step2 :: "nat \<Rightarrow> nat list" where
  "range_step2 n = map (\<lambda>k. 2 * k) [0 ..< (n + 1) div 2]"

definition replace_zero :: "nat \<Rightarrow> string \<Rightarrow> string" where
  "replace_zero i password_md5 =
     (if password_md5 ! i = CHR ''0''
      then take i password_md5 @ ''c'' @ drop (i + 1) password_md5
      else password_md5)"

definition hash_password :: "(string \<Rightarrow> string) \<Rightarrow> string \<Rightarrow> string" where
  "hash_password md5_hexdigest password =
     (let password_md5 = md5_hexdigest password
      in fold replace_zero (range_step2 (length password_md5)) password_md5)"

subsection \<open>Reading the trace of events\<close>

text \<open>The dates asked for at day granularity and the values given to the sink, in order.\<close>

fun day_request_of :: "event \<Rightarrow> string list" where
  "day_request_of (Request (NewPlantDetailAPI Ts_day d)) = [d]"
| "day_request_of e = []"

definition day_requests :: "event list \<Rightarrow> string list" where
  "day_requests es = concat (map day_request_of es)"

fun progress_of :: "event \<Rightarrow> int list" where
  "progress_of (Progress v) = [v]"
| "progress_of e = []"

definition progress_values :: "event list \<Rightarrow> int list" where
  "progress_values es = concat (map progress_of es)"

fun request_of :: "event \<Rightarrow> request list" where
  "request_of (Request r) = [r]"
| "request_of e = []"

definition requests :: "event list \<Rightarrow> request list" where
  "requests es = concat (map request_of es)"

text \<open>
  The attributes no step of a download writes: the files, the sink, the year, the
  completeness flag and the list of available years.
\<close>

definition frame :: "GrowattServerData \<Rightarrow> GrowattServerData \<Rightarrow> bool" where
  "frame s s' = (files s' = files s \<and> setprogress s' = setprogress s \<and> year s' = year s
      \<and> year_complete s' = year_complete s \<and> yearsavailable s' = yearsavailable s)"

text \<open>
  The value the specification names for the sink, \<^verbatim>\<open>round(100 * daysProcessed / totalDays)\<close>,
  with the rounding of Python (a tie goes to the even neighbour).
\<close>

definition py_round :: "real \<Rightarrow> int" where
  "py_round x =
     (let f = \<lfloor>x\<rfloor> in
      if x - of_int f < 1 / 2 then f
      else if x - of_int f > 1 / 2 then f + 1
      else if even f then f else f + 1)"

definition spec_progress_value :: "int \<Rightarrow> int \<Rightarrow> int" where
  "spec_progress_value daysProcessed totalDays =
     py_round (100 * of_int daysProcessed / of_int totalDays)"

text \<open>
  The answer to the \<^verbatim>\<open>Timespan.total\<close> request of a download: none when the request
  fails, or is not reached because the login or the plant list failed or no plant is
  listed.
\<close>

definition total_fetch :: "server \<Rightarrow> (int \<times> real) list option" where
  "total_fetch srv =
     (case login_response srv of
        Inl e \<Rightarrow> None
      | Inr _ \<Rightarrow>
          (case plant_list_response srv of
             Inl e \<Rightarrow> None
           | Inr [] \<Rightarrow> None
           | Inr (pid # _) \<Rightarrow>
               (case total_response srv of Inl e \<Rightarrow> None | Inr data \<Rightarrow> Some data)))"

subsection \<open>Scenarios\<close>

text \<open>
  March 12, 2020, with a cache of the year that is not complete and holds March 1 to
  March 10. The server knows one plant, reports a production for 2018 and 2020 and none
  for 2019, has one sample for every day and the energy of three days of the month.
\<close>

definition march_day :: "string \<Rightarrow> string \<times> ShinePhoneDayData" where
  "march_day dd =
     (''2020-03-'' @ dd,
      \<lparr>datestr = ''2020-03-'' @ dd, todayenergy = 4, samples = [(''12:00'', Float 900)]\<rparr>)"

definition march_cache :: "(string \<times> ShinePhoneDayData) list" where
  "march_cache =
     map march_day [''01'', ''02'', ''03'', ''04'', ''05'', ''06'', ''07'', ''08'', ''09'', ''10'']"

definition march_files :: "(string \<times> pickle) list" where
  "march_files = [(''solarviewdata_2020.pkl'', (False, 1000, march_cache))]"

definition march_now :: datetime where
  "march_now = \<lparr>dt_year = 2020, dt_month = 3, dt_day = 12\<rparr>"

definition march_server :: server where
  "march_server =
     \<lparr> login_response = Inr (), plant_list_response = Inr [''P1''],
       total_response = Inr [(2018, 2900), (2019, 0), (2020, 1234.5)],
       day_response = (\<lambda>d. Inr (''Home'', [(d @ '' 12:00'', Float 1500)])),
       month_response = (\<lambda>m. Inr [(''09'', 5), (''10'', 7), (''11'', 6)]),
       logout_response = Inr () \<rparr>"

definition ini_template :: string where
  "ini_template = ''solarviewdata_????.pkl''"

text \<open>The same server, but the connection breaks at the request for March 11.\<close>

definition broken_server :: server where
  "broken_server =
     march_server\<lparr>day_response :=
       (\<lambda>d. if d = ''2020-03-11'' then Inl ConnectionError
            else Inr (''Home'', [(d @ '' 12:00'', Float 1500)]))\<rparr>"

text \<open>
  The same day, asked for the year 2019, whose cache is not complete and ends on
  December 30; and the same with a cache of 2019 that is complete.
\<close>

definition december_cache :: "(string \<times> ShinePhoneDayData) list" where
  "december_cache =
     [(''2019-12-30'',
       \<lparr>datestr = ''2019-12-30'', todayenergy = 1, samples = [(''12:00'', Float 300)]\<rparr>)]"

definition december_files :: "(string \<times> pickle) list" where
  "december_files = [(''solarviewdata_2019.pkl'', (False, 3000, december_cache))]"

definition complete_files :: "(string \<times> pickle) list" where
  "complete_files = [(''solarviewdata_2019.pkl'', (True, 3000, december_cache))]"

text \<open>The objects and the ranges the loads of these scenarios give.\<close>

definition march_loaded :: GrowattServerData where
  "march_loaded =
     (new_object march_files 2020 True)
       \<lparr>days := march_cache, yearproduction := Some 1000,
        plant_id := Some ''plant_id'', plant_name := Some ''plant_name''\<rparr>"

definition march_start :: datetime where
  "march_start = \<lparr>dt_year = 2020, dt_month = 3, dt_day = 10\<rparr>"

definition december_loaded :: GrowattServerData where
  "december_loaded =
     (new_object december_files 2019 True)
       \<lparr>days := december_cache, yearproduction := Some 3000,
        plant_id := Some ''plant_id'', plant_name := Some ''plant_name''\<rparr>"

definition december_start :: datetime where
  "december_start = \<lparr>dt_year = 2019, dt_month = 12, dt_day = 30\<rparr>"

definition december_end :: datetime where
  "december_end = \<lparr>dt_year = 2019, dt_month = 12, dt_day = 31\<rparr>"

text \<open>The synchronisation of 2020 in this scenario, with a sink.\<close>

definition march_synced :: "error + GrowattServerData" where
  "march_synced =
     GrowattServerData_init march_server march_now ini_template march_files (Some 2020) True"

text \<open>
  A cache of 2020 whose latest key is after March 12: March 31 has a record with an
  energy total and no samples, as the month data leave it.
\<close>

definition future_cache :: "(string \<times> ShinePhoneDayData) list" where
  "future_cache =
     [march_day ''10'',
      (''2020-03-31'', \<lparr>datestr = ''2020-03-31'', todayenergy = 0, samples = []\<rparr>)]"

definition future_files :: "(string \<times> pickle) list" where
  "future_files = [(''solarviewdata_2020.pkl'', (False, 1000, future_cache))]"

definition future_loaded :: GrowattServerData where
  "future_loaded =
     (new_object future_files 2020 True)
       \<lparr>days := future_cache, yearproduction := Some 1000,
        plant_id := Some ''plant_id'', plant_name := Some ''plant_name''\<rparr>"

definition future_start :: datetime where
  "future_start = \<lparr>dt_year = 2020, dt_month = 3, dt_day = 31\<rparr>"

text \<open>A snapshot with a day that has an energy total and no samples.\<close>

definition snapshot_total_only :: GrowattServerData where
  "snapshot_total_only =
     (new_object [] 2020 False)
       \<lparr>days := [(''2020-03-01'',
                  \<lparr>datestr = ''2020-03-01'', todayenergy = 5.2, samples = []\<rparr>),
                 (''2020-03-02'',
                  \<lparr>datestr = ''2020-03-02'', todayenergy = 4, samples = [(''10:00'', Float 600)]\<rparr>)]\<rparr>"

subsection \<open>Properties of the colour lookup\<close>


lemma scan_table_Infinity:
  "(Infinity, c) \<in> set tbl \<Longrightarrow> p \<noteq> NaN \<Longrightarrow> scan_table tbl p \<noteq> None"
proof (induction tbl)
  case Nil
  then show ?case by simp
next
  case (Cons a tbl)
  from Cons.prems(2) have "power_le p Infinity" by (cases p) simp_all
  with Cons show ?case by (cases a) auto
qed

lemma scan_table_NaN: "scan_table tbl NaN = None"
  by (induction tbl) auto


text \<open>
  Claim C10, as amended. On the table of the program the lookup yields a colour exactly
  for the powers that are not NaN: for every number (zero, negative or however large)
  and for both infinities the scan stops at the latest at the last bound, which is
  infinity; for NaN every comparison is false, the scan falls off the end of the table
  and the lookup yields no colour.
\<close>

theorem power_to_color_total_on_numbers:
  "(\<exists>color. power_to_color Projection_init p = Some color) \<longleftrightarrow> p \<noteq> NaN"
proof (cases "p = NaN")
  case True
  then show ?thesis by (simp add: power_to_color_def scan_table_NaN)
next
  case False
  have "(Infinity, ''#B00000'') \<in> set (power_to_color_table Projection_init)"
    by (simp add: Projection_init_def)
  then have "scan_table (power_to_color_table Projection_init) p \<noteq> None"
    using False by (rule scan_table_Infinity)
  with False show ?thesis by (auto simp: power_to_color_def)
qed

text \<open>The theorem at the powers 0, -5 and plus infinity.\<close>

theorem power_to_color_total_on_numbers_witness:
  "(\<exists>color. power_to_color Projection_init (Float 0) = Some color)
   \<and> (\<exists>color. power_to_color Projection_init (Float (- 5)) = Some color)
   \<and> (\<exists>color. power_to_color Projection_init PlusInf = Some color)"
  using power_to_color_total_on_numbers [of "Float 0"]
    power_to_color_total_on_numbers [of "Float (- 5)"]
    power_to_color_total_on_numbers [of PlusInf]
  by simp

text \<open>
  Claim C10 as stated fails at NaN, a value \<^verbatim>\<open>float(...)\<close> can give for a sample: the
  lookup returns \<^verbatim>\<open>None\<close>, and the segment of such a sample is drawn with no fill.
\<close>

theorem power_to_color_nan_counterexample:
  "power_to_color Projection_init NaN = None
   \<and> plot_samples Projection_init 0 [(''12:00'', NaN)] [''12:00'']
       = ([Line [0, 330, 0, 655 / 2] None 2], None)"
  by code_simp

subsection \<open>Properties of the password digest\<close>

lemma replace_zero_upd:
  "i < length s \<Longrightarrow> replace_zero i s = (if s ! i = CHR ''0'' then s[i := CHR ''c''] else s)"
  by (simp add: replace_zero_def upd_conv_take_nth_drop)

lemma fold_replace_zero:
  "2 * m \<le> length d + 1 \<Longrightarrow>
   fold replace_zero (map (\<lambda>k. 2 * k) [0 ..< m]) d =
     map (\<lambda>i. if even i \<and> i < 2 * m \<and> d ! i = CHR ''0'' then CHR ''c'' else d ! i) [0 ..< length d]"
proof (induction m)
  case 0
  show ?case by (simp add: map_nth)
next
  case (Suc m)
  let ?s = "map (\<lambda>i. if even i \<and> i < 2 * m \<and> d ! i = CHR ''0'' then CHR ''c'' else d ! i) [0 ..< length d]"
  from Suc.prems have lt: "2 * m < length d" by simp
  have IH: "fold replace_zero (map (\<lambda>k. 2 * k) [0 ..< m]) d = ?s"
    using Suc by simp
  have at: "?s ! (2 * m) = d ! (2 * m)" using lt by simp
  have "fold replace_zero (map (\<lambda>k. 2 * k) [0 ..< Suc m]) d = replace_zero (2 * m) ?s"
    by (simp add: IH)
  also have "\<dots> = (if d ! (2 * m) = CHR ''0'' then ?s[2 * m := CHR ''c''] else ?s)"
    using lt at by (simp add: replace_zero_upd)
  also have "\<dots> = map (\<lambda>i. if even i \<and> i < 2 * Suc m \<and> d ! i = CHR ''0'' then CHR ''c'' else d ! i) [0 ..< length d]"
  proof (rule nth_equalityI)
    show "length (if d ! (2 * m) = CHR ''0'' then ?s[2 * m := CHR ''c''] else ?s) =
          length (map (\<lambda>i. if even i \<and> i < 2 * Suc m \<and> d ! i = CHR ''0'' then CHR ''c'' else d ! i) [0 ..< length d])"
      by simp
  next
    fix i
    assume "i < length (if d ! (2 * m) = CHR ''0'' then ?s[2 * m := CHR ''c''] else ?s)"
    then have i: "i < length d" by (simp split: if_splits)
    have odd: "i = Suc (2 * m) \<Longrightarrow> \<not> even i" by simp
    have "even i \<and> i < 2 * Suc m \<longleftrightarrow> (even i \<and> i < 2 * m) \<or> i = 2 * m"
      using odd by (auto simp: less_Suc_eq)
    then show "(if d ! (2 * m) = CHR ''0'' then ?s[2 * m := CHR ''c''] else ?s) ! i =
          map (\<lambda>i. if even i \<and> i < 2 * Suc m \<and> d ! i = CHR ''0'' then CHR ''c'' else d ! i) [0 ..< length d] ! i"
      using i lt by (auto simp: nth_list_update)
  qed
  finally show ?case .
qed

text \<open>
  Claim C7. The login digest is the MD5 hex digest of the password in which every
  character at an even index that is the digit 0 is replaced by the letter c; the
  characters at odd indices and all other characters are unchanged, and so is the
  length.
\<close>

theorem hash_password_digest:
  "hash_password md5_hexdigest password =
     map (\<lambda>i. if even i \<and> md5_hexdigest password ! i = CHR ''0'' then CHR ''c''
               else md5_hexdigest password ! i)
       [0 ..< length (md5_hexdigest password)]"
proof -
  let ?d = "md5_hexdigest password"
  have "2 * ((length ?d + 1) div 2) \<le> length ?d + 1" by simp
  then have "fold replace_zero (range_step2 (length ?d)) ?d =
     map (\<lambda>i. if even i \<and> i < 2 * ((length ?d + 1) div 2) \<and> ?d ! i = CHR ''0'' then CHR ''c'' else ?d ! i) [0 ..< length ?d]"
    unfolding range_step2_def by (rule fold_replace_zero)
  also have "\<dots> = map (\<lambda>i. if even i \<and> ?d ! i = CHR ''0'' then CHR ''c'' else ?d ! i) [0 ..< length ?d]"
  proof (rule map_cong[OF refl])
    fix i assume "i \<in> set [0 ..< length ?d]"
    then have "i < length ?d" by simp
    then have "even i \<longrightarrow> i < 2 * ((length ?d + 1) div 2)" by presburger
    then show "(if even i \<and> i < 2 * ((length ?d + 1) div 2) \<and> ?d ! i = CHR ''0'' then CHR ''c'' else ?d ! i)
       = (if even i \<and> ?d ! i = CHR ''0'' then CHR ''c'' else ?d ! i)" by auto
  qed
  finally show ?thesis unfolding hash_password_def Let_def .
qed

text \<open>The empty password, whose MD5 digest has the bytes 00, 04 and 09.\<close>

lemma hash_password_empty_vector:
  "hash_password (\<lambda>_. ''d41d8cd98f00b204e9800998ecf8427e'') [] = ''d41d8cd98fc0b2c4e980c998ecf8427e''"
  by code_simp

subsection \<open>The attributes a download leaves alone\<close>

lemma day_requests_append [simp]: "day_requests (xs @ ys) = day_requests xs @ day_requests ys"
  by (simp add: day_requests_def)

lemma progress_values_append [simp]: "progress_values (xs @ ys) = progress_values xs @ progress_values ys"
  by (simp add: progress_values_def)

lemma requests_append [simp]: "requests (xs @ ys) = requests xs @ requests ys"
  by (simp add: requests_def)

lemma frame_refl [simp]: "frame s s"
  by (simp add: frame_def)

lemma frame_trans: "frame s s1 \<Longrightarrow> frame s1 s2 \<Longrightarrow> frame s s2"
  by (simp add: frame_def)

lemma frame_ensure_day [simp]: "frame s (ensure_day ds s)"
  by (simp add: frame_def ensure_day_def)

lemma ensure_day_other [simp]:
  "events (ensure_day ds s) = events s" "yearproduction (ensure_day ds s) = yearproduction s"
  "yearsavailableonserver (ensure_day ds s) = yearsavailableonserver s"
  by (simp_all add: ensure_day_def)

lemma frame_send [simp]: "frame s (send r s)"
  by (simp add: frame_def send_def)

lemma send_other [simp]:
  "events (send r s) = events s @ [Request r]" "yearproduction (send r s) = yearproduction s"
  "yearsavailableonserver (send r s) = yearsavailableonserver s" "days (send r s) = days s"
  by (simp_all add: send_def)

lemma frame_showinfo [simp]: "frame s (showinfo t m s)"
  by (simp add: frame_def showinfo_def)

lemma merge_samples_frame:
  "merge_samples ds data s = (s', r) \<Longrightarrow>
     frame s s' \<and> events s' = events s \<and> yearproduction s' = yearproduction s
       \<and> yearsavailableonserver s' = yearsavailableonserver s"
  by (induction ds data s rule: merge_samples.induct)
     (auto simp: frame_def split: list.splits option.splits)

lemma merge_month_frame:
  "frame s (merge_month monthstr data s) \<and> events (merge_month monthstr data s) = events s
     \<and> yearproduction (merge_month monthstr data s) = yearproduction s
     \<and> yearsavailableonserver (merge_month monthstr data s) = yearsavailableonserver s"
  by (induction monthstr data s rule: merge_month.induct)
     (auto simp: frame_def Let_def ensure_day_def split: option.splits)

lemma day_loop_frame:
  "day_loop srv nr ds c s = (s', r) \<Longrightarrow>
     frame s s' \<and> yearproduction s' = yearproduction s
       \<and> yearsavailableonserver s' = yearsavailableonserver s"
proof (induction ds arbitrary: c s)
  case Nil
  then show ?case by simp
next
  case (Cons d ds)
  let ?c = "if setprogress s then c + 1 else c"
  let ?s1 = "if setprogress s then s\<lparr>events := events s @ [Progress ((100 * ?c) div nr)]\<rparr> else s"
  let ?s2 = "send (NewPlantDetailAPI Ts_day (format_date Ts_day d)) ?s1"
  have f2: "frame s ?s2 \<and> yearproduction ?s2 = yearproduction s \<and> yearsavailableonserver ?s2 = yearsavailableonserver s"
    by (simp add: frame_def send_def)
  show ?case
  proof (cases "day_response srv (format_date Ts_day d)")
    case (Inl e)
    with Cons.prems have "s' = ?s2" by (simp add: Let_def)
    with f2 show ?thesis by simp
  next
    case (Inr pd)
    obtain pn data where pd: "pd = (pn, data)" by (cases pd)
    let ?s3 = "ensure_day (strftime_ymd d) (?s2\<lparr>plant_name := Some pn\<rparr>)"
    have f3: "frame s ?s3 \<and> yearproduction ?s3 = yearproduction s \<and> yearsavailableonserver ?s3 = yearsavailableonserver s"
      by (simp add: frame_def send_def ensure_day_def)
    obtain s4 r4 where m: "merge_samples (strftime_ymd d) data ?s3 = (s4, r4)" by force
    from merge_samples_frame[OF m] f3
    have f4: "frame s s4 \<and> yearproduction s4 = yearproduction s \<and> yearsavailableonserver s4 = yearsavailableonserver s"
      by (auto simp: frame_def)
    show ?thesis
    proof (cases r4)
      case (Some e)
      with Cons.prems Inr pd m have "s' = s4" by (simp add: Let_def)
      with f4 show ?thesis by simp
    next
      case None
      with Cons.prems Inr pd m have "day_loop srv nr ds ?c s4 = (s', r)" by (simp add: Let_def)
      from Cons.IH[OF this] f4 show ?thesis by (auto simp: frame_def)
    qed
  qed
qed

lemma month_loop_frame:
  "month_loop srv ms s = (s', r) \<Longrightarrow>
     frame s s' \<and> yearproduction s' = yearproduction s
       \<and> yearsavailableonserver s' = yearsavailableonserver s"
proof (induction ms arbitrary: s)
  case Nil
  then show ?case by simp
next
  case (Cons m ms)
  show ?case
  proof (cases "mk_datetime (fst m) (snd m) 1")
    case (Inl e)
    with Cons.prems show ?thesis by simp
  next
    case (Inr firstday)
    let ?s1 = "send (NewPlantDetailAPI Ts_month (format_date Ts_month firstday)) s"
    show ?thesis
    proof (cases "month_response srv (format_date Ts_month firstday)")
      case (Inl e)
      with Cons.prems \<open>mk_datetime (fst m) (snd m) 1 = Inr firstday\<close>
      show ?thesis by (auto simp: Let_def frame_def send_def)
    next
      case (Inr monthdata)
      let ?s2 = "merge_month (format_monthstr (fst m) (snd m)) monthdata ?s1"
      from Cons.prems \<open>mk_datetime (fst m) (snd m) 1 = Inr firstday\<close> Inr
      have "month_loop srv ms ?s2 = (s', r)" by (simp add: Let_def)
      from Cons.IH[OF this] merge_month_frame[of ?s1 "format_monthstr (fst m) (snd m)" monthdata]
      show ?thesis by (auto simp: frame_def send_def)
    qed
  qed
qed

lemma fetch_all_frame:
  "fetch_all srv start_date end_date s = (s', r) \<Longrightarrow> frame s s'"
  unfolding fetch_all_def Let_def
  by (auto split: sum.splits list.splits prod.splits option.splits
           dest!: day_loop_frame month_loop_frame simp: frame_def send_def)

lemma fetch_all_yearproduction:
  "fetch_all srv start_date end_date s = (s', None) \<Longrightarrow> yearproduction s' \<noteq> None"
  unfolding fetch_all_def Let_def
  by (auto split: sum.splits list.splits prod.splits option.splits
           dest!: day_loop_frame month_loop_frame simp: frame_def send_def)

lemma with_GrowattApi_frame:
  "with_GrowattApi srv start_date end_date s = (s', r) \<Longrightarrow> frame s s'"
  unfolding with_GrowattApi_def Let_def
  by (auto split: sum.splits prod.splits dest!: fetch_all_frame simp: frame_def send_def)

lemma with_GrowattApi_yearproduction:
  "with_GrowattApi srv start_date end_date s = (s', None) \<Longrightarrow> yearproduction s' \<noteq> None"
  unfolding with_GrowattApi_def Let_def
  by (auto split: sum.splits prod.splits dest!: fetch_all_yearproduction simp: send_def)

lemma downloadgrowattdata_frame:
  "downloadgrowattdata srv start_date end_date s = (s', r) \<Longrightarrow> frame s s'"
  unfolding downloadgrowattdata_def
  by (auto split: prod.splits option.splits if_splits dest!: with_GrowattApi_frame
           simp: frame_def showinfo_def)

lemma downloadgrowattdata_True:
  "downloadgrowattdata srv start_date end_date s = (s', Inr True) \<Longrightarrow>
     with_GrowattApi srv start_date end_date s = (s', None)"
  unfolding downloadgrowattdata_def
  by (auto split: prod.splits option.splits if_splits)

lemma set_yearsavailable_fields [simp]:
  "files (set_yearsavailable tmpl s) = files s" "events (set_yearsavailable tmpl s) = events s"
  "days (set_yearsavailable tmpl s) = days s" "year_complete (set_yearsavailable tmpl s) = year_complete s"
  "yearproduction (set_yearsavailable tmpl s) = yearproduction s" "year (set_yearsavailable tmpl s) = year s"
  "yearsavailableonserver (set_yearsavailable tmpl s) = yearsavailableonserver s"
  "plant_id (set_yearsavailable tmpl s) = plant_id s" "plant_name (set_yearsavailable tmpl s) = plant_name s"
  by (simp_all add: set_yearsavailable_def)

lemma yearsavailablelocally_files:
  "files s' = files s \<Longrightarrow> yearsavailablelocally tmpl s' = yearsavailablelocally tmpl s"
  by (simp add: yearsavailablelocally_def)

lemma load_and_range_fresh:
  "load_and_range now tmpl fs y sink = Inr (s, start_date, end_date) \<Longrightarrow>
     files s = fs \<and> events s = [] \<and> yearsavailableonserver s = [] \<and> setprogress s = sink"
  unfolding load_and_range_def load_from_picklefile_def new_object_def Let_def
  by (auto split: sum.splits option.splits prod.splits if_splits)

subsection \<open>The scenarios, evaluated\<close>

lemma december_range:
  "load_and_range march_now ini_template december_files (Some 2019) True
     = Inr (december_loaded, december_start, december_end)"
  by code_simp

lemma march_range:
  "load_and_range march_now ini_template march_files (Some 2020) True
     = Inr (march_loaded, march_start, march_now)"
  by code_simp

lemma march_file: "map_of march_files (picklefile ini_template 2020) = Some (False, 1000, march_cache)"
  by code_simp

subsection \<open>Completeness and the complete cache\<close>

text \<open>
  Claim C4. After a download that gave \<^verbatim>\<open>True\<close>, the completeness flag of the object is
  true if and only if the year of the start date is before the current year, and the
  pickle file of the year then holds this flag, the year's production and the days.
\<close>

theorem complete_iff_start_year_past:
  assumes "load_and_range now tmpl fs y sink = Inr (s, start_date, end_date)"
    and "\<not> year_complete s"
    and "snd (downloadgrowattdata srv start_date end_date s) = Inr True"
  shows "\<exists>s' yp. GrowattServerData_init srv now tmpl fs y sink = Inr s'
      \<and> (year_complete s' \<longleftrightarrow> dt_year start_date < dt_year now)
      \<and> yearproduction s' = Some yp
      \<and> days s' = days (fst (downloadgrowattdata srv start_date end_date s))
      \<and> map_of (files s') (picklefile tmpl (year s')) = Some (year_complete s', yp, days s')"
proof -
  obtain s1 where d: "downloadgrowattdata srv start_date end_date s = (s1, Inr True)"
    using assms(3) by (cases "downloadgrowattdata srv start_date end_date s") auto
  from downloadgrowattdata_frame[OF d] assms(2) have nc: "\<not> year_complete s1"
    by (simp add: frame_def)
  from with_GrowattApi_yearproduction[OF downloadgrowattdata_True[OF d]]
  obtain yp where yp: "yearproduction s1 = Some yp" by auto
  let ?s2 = "if dt_year start_date < dt_year now then s1\<lparr>year_complete := True\<rparr> else s1"
  let ?s3 = "?s2\<lparr>files := AList.update (picklefile tmpl (year s1)) (year_complete ?s2, yp, days ?s2) (files ?s2)\<rparr>"
  have dump: "dump_to_picklefile tmpl (year s1) ?s2 = Inr ?s3"
    using yp by (simp add: dump_to_picklefile_def)
  have init: "GrowattServerData_init srv now tmpl fs y sink = Inr (set_yearsavailable tmpl ?s3)"
    using assms(1,2) d dump by (simp add: GrowattServerData_init_def download_and_save_def)
  show ?thesis
    using init nc yp d by (auto simp: update_conv')
qed

text \<open>The theorem at the cache of 2019 that ends on December 30, synchronised in 2020.\<close>

theorem complete_iff_start_year_past_witness:
  "load_and_range march_now ini_template december_files (Some 2019) True
     = Inr (december_loaded, december_start, december_end)
   \<and> \<not> year_complete december_loaded
   \<and> snd (downloadgrowattdata march_server december_start december_end december_loaded) = Inr True
   \<and> (\<exists>s' yp. GrowattServerData_init march_server march_now ini_template december_files (Some 2019) True = Inr s'
        \<and> year_complete s' \<and> yearproduction s' = Some yp
        \<and> map_of (files s') (picklefile ini_template (year s')) = Some (True, yp, days s'))"
proof -
  have h2: "\<not> year_complete december_loaded" by code_simp
  have h3: "snd (downloadgrowattdata march_server december_start december_end december_loaded) = Inr True"
    by code_simp
  have y: "dt_year december_start < dt_year march_now" by code_simp
  from complete_iff_start_year_past [OF december_range h2 h3] y december_range h2 h3
  show ?thesis by auto
qed

text \<open>
  Claim C5. When the cache of the year is complete, the synchronisation sends no request
  (it leaves no event at all), leaves the files as they are and has the loaded flag,
  production and days. The year is one the calendar has, and the latest date key of a
  non-empty cache is a date.
\<close>

theorem complete_cache_no_network:
  assumes "map_of fs (picklefile tmpl y) = Some (True, yp, cached)"
    and "1 \<le> y" and "y \<le> 9999"
    and "cached = [] \<or> \<not> isl (strptime_ymd (max_key (map fst cached)))"
  shows "\<exists>s. GrowattServerData_init srv now tmpl fs (Some y) sink = Inr s
      \<and> events s = [] \<and> files s = fs
      \<and> year_complete s \<and> yearproduction s = Some yp \<and> days s = cached"
proof -
  have v: "mk_datetime y 12 31 = Inr \<lparr>dt_year = y, dt_month = 12, dt_day = 31\<rparr>"
          "mk_datetime y 1 1 = Inr \<lparr>dt_year = y, dt_month = 1, dt_day = 1\<rparr>"
    using assms(2,3) by (simp_all add: mk_datetime_def valid_date_def days_in_month_def)
  have "\<exists>e0. end_date_of now False (Some y) = Inr e0"
    using v by (simp add: end_date_of_def)
  then obtain e0 where e0: "end_date_of now False (Some y) = Inr e0" ..
  have "\<exists>e1. end_date_of now True (Some y) = Inr e1"
    using v by (simp add: end_date_of_def of_year_def)
  then obtain e1 where e1: "end_date_of now True (Some y) = Inr e1" ..
  let ?s2 = "(new_object fs y sink)\<lparr>year_complete := True, yearproduction := Some yp, days := cached,
      plant_id := Some ''plant_id'', plant_name := Some ''plant_name''\<rparr>"
  have "\<exists>st. start_date_of True (Some y) ?s2 = Inr st"
  proof (cases "cached = []")
    case True
    then show ?thesis using v by (simp add: start_date_of_def new_object_def)
  next
    case False
    with assms(4) obtain d where "strptime_ymd (max_key (map fst cached)) = Inr d"
      by (cases "strptime_ymd (max_key (map fst cached))") auto
    with False show ?thesis by (simp add: start_date_of_def)
  qed
  then obtain st where st: "start_date_of True (Some y) ?s2 = Inr st" ..
  have "load_and_range now tmpl fs (Some y) sink = Inr (?s2, st, e1)"
    using assms(1) e0 e1 st
    by (simp add: load_and_range_def load_from_picklefile_def new_object_def Let_def)
  then have "GrowattServerData_init srv now tmpl fs (Some y) sink = Inr (set_yearsavailable tmpl ?s2)"
    by (simp add: GrowattServerData_init_def download_and_save_def)
  then show ?thesis by (simp add: new_object_def)
qed

text \<open>The theorem at the complete cache of 2019.\<close>

theorem complete_cache_no_network_witness:
  "map_of complete_files (picklefile ini_template 2019) = Some (True, 3000, december_cache)
   \<and> (1::int) \<le> 2019 \<and> (2019::int) \<le> 9999
   \<and> \<not> isl (strptime_ymd (max_key (map fst december_cache)))
   \<and> (\<exists>s. GrowattServerData_init march_server march_now ini_template complete_files (Some 2019) True = Inr s
        \<and> events s = [] \<and> files s = complete_files
        \<and> year_complete s \<and> yearproduction s = Some 3000 \<and> days s = december_cache)"
proof -
  have h1: "map_of complete_files (picklefile ini_template 2019) = Some (True, 3000, december_cache)"
    by code_simp
  have h4: "\<not> isl (strptime_ymd (max_key (map fst december_cache)))" by code_simp
  from complete_cache_no_network [OF h1 _ _ disjI2 [OF h4], of march_server march_now True] h1 h4
  show ?thesis by simp
qed

subsection \<open>Failures of the download\<close>

lemma with_GrowattApi_login_failed:
  "isl (login_response srv) \<Longrightarrow>
     fst (with_GrowattApi srv start_date end_date s) = send LoginAPI s"
  by (cases "login_response srv") (simp_all add: with_GrowattApi_def Let_def)

text \<open>
  Claim C6, as amended. When the download fails with a login error, an API error or a
  connection error, the constructor still returns an object, a message box is the last
  event, and the files are the ones before the call. The object holds the days as they
  were when the exception was raised; when the login itself failed these are the days,
  the production, the flag and the plant as loaded, and the login is the only request.
\<close>

theorem fetch_failure_caught:
  assumes "load_and_range now tmpl fs y sink = Inr (s, start_date, end_date)"
    and "\<not> year_complete s"
    and "snd (with_GrowattApi srv start_date end_date s) = Some e"
    and "e = LoginError \<or> e = GrowattApiError \<or> e = ConnectionError"
  shows "\<exists>s'. GrowattServerData_init srv now tmpl fs y sink = Inr s'
      \<and> files s' = fs
      \<and> events s' = events (fst (with_GrowattApi srv start_date end_date s))
                      @ [MessageBox ''Connection Error'' ''No connection to Growatt servers'']
      \<and> days s' = days (fst (with_GrowattApi srv start_date end_date s))
      \<and> (isl (login_response srv) \<longrightarrow>
            days s' = days s \<and> yearproduction s' = yearproduction s
            \<and> year_complete s' = year_complete s \<and> plant_id s' = plant_id s
            \<and> plant_name s' = plant_name s \<and> requests (events s') = [LoginAPI])"
proof -
  obtain s1 where w: "with_GrowattApi srv start_date end_date s = (s1, Some e)"
    using assms(3) by (cases "with_GrowattApi srv start_date end_date s") auto
  let ?s2 = "showinfo ''Connection Error'' ''No connection to Growatt servers'' s1"
  have d: "downloadgrowattdata srv start_date end_date s = (?s2, Inr False)"
    using w assms(4) by (auto simp: downloadgrowattdata_def is_GrowattApiError_def)
  have init: "GrowattServerData_init srv now tmpl fs y sink = Inr (set_yearsavailable tmpl ?s2)"
    using assms(1,2) d by (simp add: GrowattServerData_init_def download_and_save_def)
  have f: "files s1 = fs"
    using with_GrowattApi_frame[OF w] load_and_range_fresh[OF assms(1)] by (simp add: frame_def)
  have l: "isl (login_response srv) \<Longrightarrow> s1 = send LoginAPI s"
    using with_GrowattApi_login_failed[of srv start_date end_date s] w by simp
  show ?thesis
    using init f l w load_and_range_fresh[OF assms(1)]
    by (auto simp: showinfo_def send_def requests_def)
qed

text \<open>The theorem at the server whose connection breaks at March 11.\<close>

theorem fetch_failure_caught_witness:
  "load_and_range march_now ini_template march_files (Some 2020) True
     = Inr (march_loaded, march_start, march_now)
   \<and> \<not> year_complete march_loaded
   \<and> snd (with_GrowattApi broken_server march_start march_now march_loaded) = Some ConnectionError
   \<and> (\<exists>s'. GrowattServerData_init broken_server march_now ini_template march_files (Some 2020) True = Inr s'
        \<and> files s' = march_files
        \<and> events s' = events (fst (with_GrowattApi broken_server march_start march_now march_loaded))
                        @ [MessageBox ''Connection Error'' ''No connection to Growatt servers''])"
proof -
  have h2: "\<not> year_complete march_loaded" by code_simp
  have h3: "snd (with_GrowattApi broken_server march_start march_now march_loaded) = Some ConnectionError"
    by code_simp
  from fetch_failure_caught [OF march_range h2 h3] march_range h2 h3
  show ?thesis by auto
qed

text \<open>
  Claim C6 as stated fails there: the constructor returns, but the record of March 10
  holds the sample merged before the failure, not the cached one.
\<close>

theorem partial_merge_counterexample:
  "\<not> isl (GrowattServerData_init broken_server march_now ini_template march_files (Some 2020) True)
   \<and> map_of march_cache ''2020-03-10''
       = Some \<lparr>datestr = ''2020-03-10'', todayenergy = 4, samples = [(''12:00'', Float 900)]\<rparr>
   \<and> map_of (days (projr (GrowattServerData_init broken_server march_now ini_template march_files (Some 2020) True)))
        ''2020-03-10''
       = Some \<lparr>datestr = ''2020-03-10'', todayenergy = 4, samples = [(''12:00'', Float 1500)]\<rparr>"
  by code_simp

subsection \<open>The available years\<close>

lemma set_add_server_years: "set (add_server_years xs ys) = set xs \<union> set ys"
  by (induction xs arbitrary: ys) auto

lemma distinct_add_server_years: "distinct ys \<Longrightarrow> distinct (add_server_years xs ys)"
  by (induction xs arbitrary: ys) auto

lemma keys_years_on_server:
  "fst ` set (years_on_server data acc) = fst ` set acc \<union> {y. \<exists>v. (y, v) \<in> set data \<and> v > 0}"
  by (induction data acc rule: years_on_server.induct) (auto simp: dom_update)

lemma fetch_all_server_years:
  "fetch_all srv start_date end_date s = (s', r) \<Longrightarrow>
     yearsavailableonserver s' =
       (case plant_list_response srv of
          Inr (pid # rest) \<Rightarrow>
            (case total_response srv of
               Inr data \<Rightarrow> years_on_server data []
             | Inl e \<Rightarrow> yearsavailableonserver s)
        | _ \<Rightarrow> yearsavailableonserver s)"
  unfolding fetch_all_def Let_def
  by (auto split: sum.splits list.splits prod.splits option.splits
           dest!: day_loop_frame month_loop_frame simp: send_def)

lemma with_GrowattApi_server_years:
  "with_GrowattApi srv start_date end_date s = (s', r) \<Longrightarrow>
     yearsavailableonserver s' =
       (case total_fetch srv of
          None \<Rightarrow> yearsavailableonserver s
        | Some data \<Rightarrow> years_on_server data [])"
  unfolding with_GrowattApi_def total_fetch_def Let_def
  by (auto split: sum.splits list.splits prod.splits
           dest!: fetch_all_server_years simp: send_def)

lemma downloadgrowattdata_server_years:
  "downloadgrowattdata srv start_date end_date s = (s', r) \<Longrightarrow>
     yearsavailableonserver s' =
       (case total_fetch srv of
          None \<Rightarrow> yearsavailableonserver s
        | Some data \<Rightarrow> years_on_server data [])"
  unfolding downloadgrowattdata_def
  by (auto split: prod.splits option.splits if_splits dest!: with_GrowattApi_server_years
           simp: showinfo_def)

lemma download_and_save_years:
  assumes "download_and_save srv now tmpl s start_date end_date = Inr s'"
  shows "yearsavailable s' =
           sort (add_server_years (map fst (yearsavailableonserver s')) (yearsavailablelocally tmpl s'))
         \<and> yearsavailableonserver s' =
             (if year_complete s then yearsavailableonserver s
              else case total_fetch srv of
                     None \<Rightarrow> yearsavailableonserver s
                   | Some data \<Rightarrow> years_on_server data [])"
proof -
  have sy: "yearsavailable (set_yearsavailable tmpl t) =
        sort (add_server_years (map fst (yearsavailableonserver (set_yearsavailable tmpl t)))
               (yearsavailablelocally tmpl (set_yearsavailable tmpl t)))" for t
    by (simp add: set_yearsavailable_def yearsavailablelocally_def)
  show ?thesis
  proof (cases "year_complete s")
    case True
    with assms have "s' = set_yearsavailable tmpl s" by (simp add: download_and_save_def)
    then show ?thesis using sy[of s] True by simp
  next
    case False
    obtain s1 r where d: "downloadgrowattdata srv start_date end_date s = (s1, r)" by force
    from assms False d obtain t where t: "s' = set_yearsavailable tmpl t"
        "yearsavailableonserver t = yearsavailableonserver s1"
      by (auto simp: download_and_save_def dump_to_picklefile_def
               split: sum.splits bool.splits option.splits if_splits)
    from downloadgrowattdata_server_years[OF d] t sy[of t] False show ?thesis by simp
  qed
qed

text \<open>
  Claim C8, as amended. The available years are sorted and are, as a set, the years of
  the local file names together with the years the object holds from the server. These
  are none when the download was skipped because the loaded cache is complete, and none
  when the \<^verbatim>\<open>Timespan.total\<close> request failed or was not reached; otherwise they are
  exactly the years that the answer to this request gives with a production above
  zero, also when the download fails afterwards. The list has no duplicates when the
  local file names give none.
\<close>

theorem yearsavailable_union:
  assumes "load_and_range now tmpl fs y sink = Inr (s0, start_date, end_date)"
    and "GrowattServerData_init srv now tmpl fs y sink = Inr s"
  shows "sorted (yearsavailable s)
      \<and> set (yearsavailable s) = set (yearsavailablelocally tmpl s) \<union> fst ` set (yearsavailableonserver s)
      \<and> (distinct (yearsavailablelocally tmpl s) \<longrightarrow> distinct (yearsavailable s))
      \<and> fst ` set (yearsavailableonserver s) =
           (if year_complete s0 then {}
            else case total_fetch srv of
                   None \<Rightarrow> {}
                 | Some data \<Rightarrow> {y. \<exists>v. (y, v) \<in> set data \<and> 0 < v})"
proof -
  from assms have d: "download_and_save srv now tmpl s0 start_date end_date = Inr s"
    by (simp add: GrowattServerData_init_def)
  from load_and_range_fresh[OF assms(1)] have e: "yearsavailableonserver s0 = []" by simp
  have k: "fst ` set (years_on_server data []) = {y. \<exists>v. (y, v) \<in> set data \<and> 0 < v}" for data
    using keys_years_on_server[of data "[]"] by simp
  from download_and_save_years[OF d] e k
  show ?thesis
    by (auto simp: set_add_server_years distinct_add_server_years split: option.splits)
qed

text \<open>
  The theorem at the synchronisation of March 12: the cache of 2020 is the only local
  file, and the server adds 2018.
\<close>

theorem yearsavailable_union_witness:
  "load_and_range march_now ini_template march_files (Some 2020) True
     = Inr (march_loaded, march_start, march_now)
   \<and> march_synced = Inr (projr march_synced)
   \<and> \<not> year_complete march_loaded
   \<and> total_fetch march_server = Some [(2018, 2900), (2019, 0), (2020, 1234.5)]
   \<and> sorted (yearsavailable (projr march_synced))
   \<and> set (yearsavailable (projr march_synced))
       = set (yearsavailablelocally ini_template (projr march_synced))
         \<union> fst ` set (yearsavailableonserver (projr march_synced))
   \<and> fst ` set (yearsavailableonserver (projr march_synced))
       = {y. \<exists>v. (y, v) \<in> set [(2018, 2900), (2019, 0), (2020, 1234.5 :: real)] \<and> 0 < v}
   \<and> yearsavailablelocally ini_template (projr march_synced) = [2020]
   \<and> yearsavailable (projr march_synced) = [2018, 2020]"
proof -
  have "\<not> isl march_synced" by code_simp
  then have h: "march_synced = Inr (projr march_synced)"
    by (cases march_synced) auto
  then have i: "GrowattServerData_init march_server march_now ini_template march_files (Some 2020) True
      = Inr (projr march_synced)"
    by (simp add: march_synced_def)
  have c: "\<not> year_complete march_loaded" by code_simp
  have t: "total_fetch march_server = Some [(2018, 2900), (2019, 0), (2020, 1234.5)]" by code_simp
  have l: "yearsavailablelocally ini_template (projr march_synced) = [2020]" by code_simp
  have a: "yearsavailable (projr march_synced) = [2018, 2020]" by code_simp
  from yearsavailable_union [OF march_range i] h c t l a march_range
  show ?thesis by simp
qed

text \<open>
  Claim C8 as stated fails there: the server reports 2019, with the production 0, and
  2019 is not among the available years.
\<close>

theorem zero_production_year_counterexample:
  "\<not> isl march_synced
   \<and> total_response march_server = Inr [(2018, 2900), (2019, 0), (2020, 1234.5)]
   \<and> yearsavailablelocally ini_template (projr march_synced) = [2020]
   \<and> yearsavailable (projr march_synced) = [2018, 2020]"
  by code_simp

subsection \<open>The trace of a download\<close>

lemma length_dates_from [simp]: "length (dates_from d n) = n"
  by (induction n arbitrary: d) auto

lemma length_daterange:
  "daterange start_date end_date \<noteq> [] \<Longrightarrow>
     int (length (daterange start_date end_date)) = diff_days end_date start_date + 1"
  by (cases "0 \<le> diff_days end_date start_date + 1") (auto simp: daterange_def)

lemma hd_daterange:
  "daterange start_date end_date \<noteq> [] \<Longrightarrow> hd (daterange start_date end_date) = start_date"
  by (cases "nat (diff_days end_date start_date + 1)") (auto simp: daterange_def)

lemma day_loop_step:
  assumes "day_loop srv nr (d # ds) c s = (s', None)"
  obtains s1 where
    "day_loop srv nr ds (if setprogress s then c + 1 else c) s1 = (s', None)"
    "frame s s1"
    "events s1 = events s
        @ (if setprogress s then [Progress ((100 * (c + 1)) div nr)] else [])
        @ [Request (NewPlantDetailAPI Ts_day (strftime_ymd d))]"
proof -
  let ?c = "if setprogress s then c + 1 else c"
  let ?s1 = "if setprogress s then s\<lparr>events := events s @ [Progress ((100 * ?c) div nr)]\<rparr> else s"
  let ?s2 = "send (NewPlantDetailAPI Ts_day (format_date Ts_day d)) ?s1"
  from assms obtain pn data where r: "day_response srv (format_date Ts_day d) = Inr (pn, data)"
    by (cases "day_response srv (format_date Ts_day d)") (auto simp: Let_def)
  let ?s3 = "ensure_day (strftime_ymd d) (?s2\<lparr>plant_name := Some pn\<rparr>)"
  obtain s4 r4 where m: "merge_samples (strftime_ymd d) data ?s3 = (s4, r4)" by force
  from assms r m have r4: "r4 = None" and l: "day_loop srv nr ds ?c s4 = (s', None)"
    by (auto simp: Let_def split: option.splits)
  have "frame s ?s3" by (simp add: frame_def send_def ensure_day_def)
  with merge_samples_frame[OF m] have f: "frame s s4" by (auto simp: frame_def)
  have "events s4 = events ?s3" using merge_samples_frame[OF m] by simp
  then have e: "events s4 = events s
        @ (if setprogress s then [Progress ((100 * (c + 1)) div nr)] else [])
        @ [Request (NewPlantDetailAPI Ts_day (strftime_ymd d))]"
    by (simp add: send_def)
  from l f e show ?thesis by (rule that)
qed

lemma day_loop_events:
  "day_loop srv nr ds c s = (s', None) \<Longrightarrow> setprogress s \<Longrightarrow>
     events s' = events s @
       concat (map (\<lambda>k. [Progress ((100 * (c + int k + 1)) div nr),
                         Request (NewPlantDetailAPI Ts_day (strftime_ymd (ds ! k)))])
                [0 ..< length ds])"
proof (induction ds arbitrary: c s)
  case Nil
  then show ?case by simp
next
  case (Cons d ds)
  from Cons.prems(1) obtain s1 where
    l: "day_loop srv nr ds (if setprogress s then c + 1 else c) s1 = (s', None)"
    and f: "frame s s1"
    and e: "events s1 = events s
        @ (if setprogress s then [Progress ((100 * (c + 1)) div nr)] else [])
        @ [Request (NewPlantDetailAPI Ts_day (strftime_ymd d))]"
    by (rule day_loop_step)
  from f Cons.prems(2) have p: "setprogress s1" by (simp add: frame_def)
  from l Cons.prems(2) have "day_loop srv nr ds (c + 1) s1 = (s', None)" by simp
  from Cons.IH[OF this p]
  have "events s' = events s1 @
       concat (map (\<lambda>k. [Progress ((100 * (c + 1 + int k + 1)) div nr),
                         Request (NewPlantDetailAPI Ts_day (strftime_ymd (ds ! k)))])
                [0 ..< length ds])" .
  moreover have "[0 ..< length (d # ds)] = 0 # map Suc [0 ..< length ds]"
    by (simp add: upt_conv_Cons map_Suc_upt del: upt_Suc)
  ultimately show ?case
    using e Cons.prems(2) by (simp add: o_def add.commute add.left_commute del: upt_Suc)
qed

lemma day_loop_day_requests:
  "day_loop srv nr ds c s = (s', None) \<Longrightarrow>
     day_requests (events s') = day_requests (events s) @ map strftime_ymd ds"
proof (induction ds arbitrary: c s)
  case Nil
  then show ?case by simp
next
  case (Cons d ds)
  from Cons.prems(1) obtain s1 where
    l: "day_loop srv nr ds (if setprogress s then c + 1 else c) s1 = (s', None)"
    and e: "events s1 = events s
        @ (if setprogress s then [Progress ((100 * (c + 1)) div nr)] else [])
        @ [Request (NewPlantDetailAPI Ts_day (strftime_ymd d))]"
    by (rule day_loop_step)
  from Cons.IH[OF l] e show ?case by (simp add: day_requests_def)
qed

lemma mk_datetime_Inr:
  "mk_datetime y m d = Inr x \<Longrightarrow> x = \<lparr>dt_year = y, dt_month = m, dt_day = d\<rparr>"
  by (auto simp: mk_datetime_def split: if_splits)

lemma month_loop_events:
  "month_loop srv ms s = (s', None) \<Longrightarrow>
     events s' = events s @
       map (\<lambda>m. Request (NewPlantDetailAPI Ts_month
                  (strftime_ym \<lparr>dt_year = fst m, dt_month = snd m, dt_day = 1\<rparr>))) ms"
proof (induction ms arbitrary: s)
  case Nil
  then show ?case by simp
next
  case (Cons m ms)
  from Cons.prems obtain firstday where fd: "mk_datetime (fst m) (snd m) 1 = Inr firstday"
    by (cases "mk_datetime (fst m) (snd m) 1") auto
  from Cons.prems fd obtain monthdata where
    md: "month_response srv (format_date Ts_month firstday) = Inr monthdata"
    by (cases "month_response srv (format_date Ts_month firstday)") (auto simp: Let_def)
  let ?s1 = "send (NewPlantDetailAPI Ts_month (format_date Ts_month firstday)) s"
  let ?s2 = "merge_month (format_monthstr (fst m) (snd m)) monthdata ?s1"
  from Cons.prems fd md have "month_loop srv ms ?s2 = (s', None)" by (simp add: Let_def)
  from Cons.IH[OF this] merge_month_frame[of ?s1 "format_monthstr (fst m) (snd m)" monthdata]
    mk_datetime_Inr[OF fd]
  show ?case by (simp add: send_def)
qed

lemma with_GrowattApi_events:
  assumes "with_GrowattApi srv start_date end_date s = (s', None)"
  shows "\<exists>s1. day_loop srv (diff_days end_date start_date + 1) (daterange start_date end_date) 0 s1
                 = (fst (day_loop srv (diff_days end_date start_date + 1) (daterange start_date end_date) 0 s1), None)
      \<and> frame s s1
      \<and> events s1 = events s @ [Request LoginAPI, Request PlantListAPI, Request (NewPlantDetailAPI Ts_total [])]
      \<and> days s1 = days s
      \<and> events s' = events (fst (day_loop srv (diff_days end_date start_date + 1) (daterange start_date end_date) 0 s1))
           @ map (\<lambda>m. Request (NewPlantDetailAPI Ts_month
                  (strftime_ym \<lparr>dt_year = fst m, dt_month = snd m, dt_day = 1\<rparr>)))
               (months_of (daterange start_date end_date) [])
           @ [Request LogoutAPI]
      \<and> (\<exists>s2. month_loop srv (months_of (daterange start_date end_date) [])
                  (fst (day_loop srv (diff_days end_date start_date + 1) (daterange start_date end_date) 0 s1))
                = (s2, None) \<and> days s' = days s2)"
proof -
  from assms obtain u where lg: "login_response srv = Inr u"
    by (cases "login_response srv") (auto simp: with_GrowattApi_def Let_def)
  obtain sf rf where fa: "fetch_all srv start_date end_date (send LoginAPI s) = (sf, rf)" by force
  from assms lg fa have lo: "s' = send LogoutAPI sf" and rf: "rf = None"
    by (auto simp: with_GrowattApi_def Let_def split: sum.splits)
  from fa rf obtain pid rest where pl: "plant_list_response srv = Inr (pid # rest)"
    by (auto simp: fetch_all_def Let_def split: sum.splits list.splits)
  from fa rf pl obtain data where tr: "total_response srv = Inr data"
    by (auto simp: fetch_all_def Let_def split: sum.splits)
  let ?s1 = "(send (NewPlantDetailAPI Ts_total [])
               ((send PlantListAPI (send LoginAPI s))\<lparr>plant_id := Some pid, plant_name := Some []\<rparr>))
             \<lparr>yearsavailableonserver := years_on_server data [],
              yearproduction := Some (case map_of (years_on_server data []) (dt_year start_date) of
                                        Some v \<Rightarrow> v | None \<Rightarrow> 0)\<rparr>"
  let ?nr = "diff_days end_date start_date + 1"
  obtain s4 r4 where dl: "day_loop srv ?nr (daterange start_date end_date) 0 ?s1 = (s4, r4)" by force
  from fa rf pl tr dl have r4: "r4 = None"
    and ml: "month_loop srv (months_of (daterange start_date end_date) []) s4 = (sf, None)"
    by (auto simp: fetch_all_def Let_def split: option.splits)
  have "events s' = events sf @ [Request LogoutAPI]" using lo by (simp add: send_def)
  with month_loop_events[OF ml] dl r4 ml lo
  show ?thesis
    by (intro exI[of _ ?s1]) (auto simp: send_def frame_def)
qed

text \<open>
  Claim C3, as amended. With a sink, a download that succeeds calls the sink exactly once
  for every date of the range, at the head of the iteration and so before the request for
  that day, with the floor of \<open>100 * k / totalDays\<close>, where \<open>k\<close> counts this date and
  the dates before it and \<open>totalDays\<close> is the length of the range. The theorem gives the
  whole trace of the download.
\<close>

theorem progress_before_each_day_request:
  assumes "snd (downloadgrowattdata srv start_date end_date s) = Inr True"
    and "setprogress s"
  shows "events (fst (downloadgrowattdata srv start_date end_date s)) =
           events s
           @ [Request LoginAPI, Request PlantListAPI, Request (NewPlantDetailAPI Ts_total [])]
           @ concat (map (\<lambda>k. [Progress ((100 * (int k + 1)) div (diff_days end_date start_date + 1)),
                               Request (NewPlantDetailAPI Ts_day
                                          (strftime_ymd (daterange start_date end_date ! k)))])
                      [0 ..< length (daterange start_date end_date)])
           @ map (\<lambda>m. Request (NewPlantDetailAPI Ts_month
                         (strftime_ym \<lparr>dt_year = fst m, dt_month = snd m, dt_day = 1\<rparr>)))
               (months_of (daterange start_date end_date) [])
           @ [Request LogoutAPI]
         \<and> (daterange start_date end_date \<noteq> [] \<longrightarrow>
              int (length (daterange start_date end_date)) = diff_days end_date start_date + 1)"
proof -
  obtain s' where d: "downloadgrowattdata srv start_date end_date s = (s', Inr True)"
    using assms(1) by (cases "downloadgrowattdata srv start_date end_date s") auto
  from with_GrowattApi_events[OF downloadgrowattdata_True[OF d]] obtain s1 where
    dl: "day_loop srv (diff_days end_date start_date + 1) (daterange start_date end_date) 0 s1
                 = (fst (day_loop srv (diff_days end_date start_date + 1) (daterange start_date end_date) 0 s1), None)"
    and f: "frame s s1"
    and e1: "events s1 = events s @ [Request LoginAPI, Request PlantListAPI, Request (NewPlantDetailAPI Ts_total [])]"
    and e': "events s' = events (fst (day_loop srv (diff_days end_date start_date + 1) (daterange start_date end_date) 0 s1))
           @ map (\<lambda>m. Request (NewPlantDetailAPI Ts_month
                  (strftime_ym \<lparr>dt_year = fst m, dt_month = snd m, dt_day = 1\<rparr>)))
               (months_of (daterange start_date end_date) [])
           @ [Request LogoutAPI]"
    by blast
  from f assms(2) have "setprogress s1" by (simp add: frame_def)
  from day_loop_events[OF dl this] e1 e' d length_daterange[of start_date end_date]
  show ?thesis by simp
qed

text \<open>The theorem at the three days from March 10 to March 12.\<close>

theorem progress_before_each_day_request_witness:
  "snd (downloadgrowattdata march_server march_start march_now march_loaded) = Inr True
   \<and> setprogress march_loaded
   \<and> events (fst (downloadgrowattdata march_server march_start march_now march_loaded)) =
       [Request LoginAPI, Request PlantListAPI, Request (NewPlantDetailAPI Ts_total []),
        Progress 33, Request (NewPlantDetailAPI Ts_day ''2020-03-10''),
        Progress 66, Request (NewPlantDetailAPI Ts_day ''2020-03-11''),
        Progress 100, Request (NewPlantDetailAPI Ts_day ''2020-03-12''),
        Request (NewPlantDetailAPI Ts_month ''2020-03''), Request LogoutAPI]"
proof -
  have h1: "snd (downloadgrowattdata march_server march_start march_now march_loaded) = Inr True"
    by code_simp
  have h2: "setprogress march_loaded" by code_simp
  have e: "events march_loaded = []" by code_simp
  have r: "daterange march_start march_now =
      [\<lparr>dt_year = 2020, dt_month = 3, dt_day = 10\<rparr>, \<lparr>dt_year = 2020, dt_month = 3, dt_day = 11\<rparr>,
       \<lparr>dt_year = 2020, dt_month = 3, dt_day = 12\<rparr>]" by code_simp
  have n: "diff_days march_now march_start + 1 = 3" by code_simp
  have f: "strftime_ymd \<lparr>dt_year = 2020, dt_month = 3, dt_day = 10\<rparr> = ''2020-03-10''"
      "strftime_ymd \<lparr>dt_year = 2020, dt_month = 3, dt_day = 11\<rparr> = ''2020-03-11''"
      "strftime_ymd \<lparr>dt_year = 2020, dt_month = 3, dt_day = 12\<rparr> = ''2020-03-12''"
      "strftime_ym \<lparr>dt_year = 2020, dt_month = 3, dt_day = 1\<rparr> = ''2020-03''"
    by code_simp+
  have u: "[0 ..< 3] = [0, 1, 2]" by code_simp
  from progress_before_each_day_request [OF h1 h2] h1 h2
  show ?thesis by (simp add: e r n f u)
qed

text \<open>
  Claim C3 as stated fails there: for the second of the three days the sink gets 66, and
  the rounded value of the claim is 67.
\<close>

theorem progress_truncates_counterexample:
  "\<not> isl (GrowattServerData_init march_server march_now ini_template march_files (Some 2020) True)
   \<and> progress_values (events (projr
        (GrowattServerData_init march_server march_now ini_template march_files (Some 2020) True)))
       = [33, 66, 100]
   \<and> diff_days march_now march_start + 1 = 3
   \<and> spec_progress_value 2 3 = 67"
  by code_simp

subsection \<open>The days a download leaves alone\<close>

lemma ensure_day_keeps:
  "map_of (days s) k = Some r \<Longrightarrow> map_of (days (ensure_day ds s)) k = Some r"
  by (auto simp: ensure_day_def update_conv')

lemma merge_samples_other:
  "merge_samples ds data s = (s', r) \<Longrightarrow> k \<noteq> ds \<Longrightarrow> map_of (days s') k = map_of (days s) k"
  by (induction ds data s rule: merge_samples.induct)
     (auto simp: update_conv' split: list.splits option.splits)

lemma day_loop_other:
  "day_loop srv nr ds c s = (s', r) \<Longrightarrow> k \<notin> strftime_ymd ` set ds \<Longrightarrow>
     map_of (days s) k = Some x \<Longrightarrow> map_of (days s') k = Some x"
proof (induction ds arbitrary: c s)
  case Nil
  then show ?case by simp
next
  case (Cons d ds)
  let ?c = "if setprogress s then c + 1 else c"
  let ?s1 = "if setprogress s then s\<lparr>events := events s @ [Progress ((100 * ?c) div nr)]\<rparr> else s"
  let ?s2 = "send (NewPlantDetailAPI Ts_day (format_date Ts_day d)) ?s1"
  have k2: "map_of (days ?s2) k = Some x" using Cons.prems(3) by (simp add: send_def)
  show ?case
  proof (cases "day_response srv (format_date Ts_day d)")
    case (Inl e)
    with Cons.prems(1) have "s' = ?s2" by (simp add: Let_def)
    with k2 show ?thesis by simp
  next
    case (Inr pd)
    obtain pn data where pd: "pd = (pn, data)" by (cases pd)
    let ?s3 = "ensure_day (strftime_ymd d) (?s2\<lparr>plant_name := Some pn\<rparr>)"
    have k3: "map_of (days ?s3) k = Some x"
      by (rule ensure_day_keeps) (use k2 in simp)
    obtain s4 r4 where m: "merge_samples (strftime_ymd d) data ?s3 = (s4, r4)" by force
    from Cons.prems(2) have "k \<noteq> strftime_ymd d" by auto
    from merge_samples_other[OF m this] k3 have k4: "map_of (days s4) k = Some x" by simp
    show ?thesis
    proof (cases r4)
      case (Some e)
      with Cons.prems(1) Inr pd m have "s' = s4" by (simp add: Let_def)
      with k4 show ?thesis by simp
    next
      case None
      with Cons.prems(1) Inr pd m have "day_loop srv nr ds ?c s4 = (s', r)" by (simp add: Let_def)
      from Cons.IH[OF this _ k4] Cons.prems(2) show ?thesis by simp
    qed
  qed
qed

lemma merge_month_samples:
  "map_of (days s) k = Some x \<Longrightarrow>
     \<exists>x'. map_of (days (merge_month monthstr data s)) k = Some x' \<and> samples x' = samples x"
proof (induction monthstr data s arbitrary: x rule: merge_month.induct)
  case (1 monthstr s)
  then show ?case by simp
next
  case (2 monthstr dy etoday rest s)
  let ?ds = "monthstr @ dy"
  let ?s1 = "ensure_day ?ds s"
  let ?s2 = "case map_of (days ?s1) ?ds of None \<Rightarrow> ?s1
             | Some r \<Rightarrow> ?s1\<lparr>days := AList.update ?ds (r\<lparr>todayenergy := etoday\<rparr>) (days ?s1)\<rparr>"
  have k1: "map_of (days ?s1) k = Some x" using "2.prems" by (rule ensure_day_keeps)
  have "\<exists>x2. map_of (days ?s2) k = Some x2 \<and> samples x2 = samples x"
    using k1 by (cases "map_of (days ?s1) ?ds") (auto simp: update_conv')
  then obtain x2 where x2: "map_of (days ?s2) k = Some x2" "samples x2 = samples x" by blast
  from "2.IH"[OF refl refl x2(1)] x2(2) show ?case by (simp add: Let_def)
qed

lemma month_loop_samples:
  "month_loop srv ms s = (s', r) \<Longrightarrow> map_of (days s) k = Some x \<Longrightarrow>
     \<exists>x'. map_of (days s') k = Some x' \<and> samples x' = samples x"
proof (induction ms arbitrary: s x)
  case Nil
  then show ?case by simp
next
  case (Cons m ms)
  show ?case
  proof (cases "mk_datetime (fst m) (snd m) 1")
    case (Inl e)
    with Cons.prems show ?thesis by simp
  next
    case (Inr firstday)
    note fd = this
    let ?s1 = "send (NewPlantDetailAPI Ts_month (format_date Ts_month firstday)) s"
    have k1: "map_of (days ?s1) k = Some x" using Cons.prems(2) by (simp add: send_def)
    show ?thesis
    proof (cases "month_response srv (format_date Ts_month firstday)")
      case (Inl e)
      with Cons.prems(1) fd have "s' = ?s1" by (auto simp: Let_def)
      with k1 show ?thesis by simp
    next
      case (Inr monthdata)
      let ?s2 = "merge_month (format_monthstr (fst m) (snd m)) monthdata ?s1"
      from Cons.prems(1) fd Inr have l: "month_loop srv ms ?s2 = (s', r)" by (simp add: Let_def)
      from merge_month_samples[OF k1, of "format_monthstr (fst m) (snd m)" monthdata]
      obtain x2 where x2: "map_of (days ?s2) k = Some x2" "samples x2 = samples x" by blast
      from Cons.IH[OF l x2(1)] x2(2) show ?thesis by simp
    qed
  qed
qed

lemma max_key_Max: "ks \<noteq> [] \<Longrightarrow> max_key ks = Max (set ks)"
  by (cases ks) (simp_all add: Max.set_eq_fold [symmetric])

lemma load_and_range_cached:
  assumes "map_of fs (picklefile tmpl y) = Some (c, yp, cached)" and "cached \<noteq> []"
    and "load_and_range now tmpl fs (Some y) sink = Inr (s, start_date, end_date)"
  shows "strptime_ymd (max_key (map fst cached)) = Inr start_date \<and> days s = cached \<and> events s = []
      \<and> end_date = (if dt_year now = y then now else \<lparr>dt_year = y, dt_month = 12, dt_day = 31\<rparr>)"
  using assms
  unfolding load_and_range_def load_from_picklefile_def new_object_def Let_def start_date_of_def
    end_date_of_def of_year_def
  by (auto split: sum.splits if_splits dest: mk_datetime_Inr)

lemma daterange_nonempty:
  "0 \<le> diff_days end_date start_date \<Longrightarrow> \<exists>rest. daterange start_date end_date = start_date # rest"
  by (cases "nat (diff_days end_date start_date + 1)") (auto simp: daterange_def)

lemma daterange_empty:
  "diff_days end_date start_date < 0 \<Longrightarrow> daterange start_date end_date = []"
  by (simp add: daterange_def)

text \<open>
  Claim C1, as amended. When the cache file of the year exists, is not complete and holds
  at least one day, the range of the download starts at the latest cached date key itself,
  not at the day after it, and ends today for the current year and on December 31
  otherwise. A download that succeeds asks for exactly the dates of this range, in
  order: when the latest cached date is not after the end date, it is the first date
  asked for, so the latest cached day is fetched again; when it is after the end date (a
  record that the month data left for a day to come), no date is asked for. Every
  cached day outside the range keeps its sample map (its energy total may be rewritten
  from the month data).
\<close>

theorem fetch_starts_at_latest_cached_date:
  assumes "map_of fs (picklefile tmpl y) = Some (False, yp, cached)" and "cached \<noteq> []"
    and "load_and_range now tmpl fs (Some y) sink = Inr (s, start_date, end_date)"
    and "snd (downloadgrowattdata srv start_date end_date s) = Inr True"
  shows "strptime_ymd (Max (set (map fst cached))) = Inr start_date
      \<and> end_date = (if dt_year now = y then now else \<lparr>dt_year = y, dt_month = 12, dt_day = 31\<rparr>)
      \<and> day_requests (events (fst (downloadgrowattdata srv start_date end_date s)))
          = map strftime_ymd (daterange start_date end_date)
      \<and> (daterange start_date end_date \<noteq> [] \<longrightarrow> hd (daterange start_date end_date) = start_date)
      \<and> (0 \<le> diff_days end_date start_date \<longrightarrow>
            (\<exists>rest. day_requests (events (fst (downloadgrowattdata srv start_date end_date s)))
                      = strftime_ymd start_date # rest))
      \<and> (diff_days end_date start_date < 0 \<longrightarrow>
            day_requests (events (fst (downloadgrowattdata srv start_date end_date s))) = [])
      \<and> (\<forall>k x. map_of cached k = Some x \<and> k \<notin> set (map strftime_ymd (daterange start_date end_date))
            \<longrightarrow> (\<exists>x'. map_of (days (fst (downloadgrowattdata srv start_date end_date s))) k = Some x'
                      \<and> samples x' = samples x))"
proof -
  from load_and_range_cached[OF assms(1-3)]
  have st: "strptime_ymd (max_key (map fst cached)) = Inr start_date"
    and dc: "days s = cached" and ev: "events s = []"
    and en: "end_date = (if dt_year now = y then now else \<lparr>dt_year = y, dt_month = 12, dt_day = 31\<rparr>)"
    by simp_all
  from assms(2) have mk: "max_key (map fst cached) = Max (set (map fst cached))"
    by (intro max_key_Max) simp
  obtain s' where d: "downloadgrowattdata srv start_date end_date s = (s', Inr True)"
    using assms(4) by (cases "downloadgrowattdata srv start_date end_date s") auto
  let ?nr = "diff_days end_date start_date + 1"
  let ?dr = "daterange start_date end_date"
  from with_GrowattApi_events[OF downloadgrowattdata_True[OF d]] obtain s1 s2 where
    dl: "day_loop srv ?nr ?dr 0 s1 = (fst (day_loop srv ?nr ?dr 0 s1), None)"
    and e1: "events s1 = events s @ [Request LoginAPI, Request PlantListAPI, Request (NewPlantDetailAPI Ts_total [])]"
    and d1: "days s1 = days s"
    and e': "events s' = events (fst (day_loop srv ?nr ?dr 0 s1))
           @ map (\<lambda>m. Request (NewPlantDetailAPI Ts_month
                  (strftime_ym \<lparr>dt_year = fst m, dt_month = snd m, dt_day = 1\<rparr>)))
               (months_of ?dr [])
           @ [Request LogoutAPI]"
    and ml: "month_loop srv (months_of ?dr []) (fst (day_loop srv ?nr ?dr 0 s1)) = (s2, None)"
    and d2: "days s' = days s2"
    by blast
  have mreq: "day_requests (map (\<lambda>m. Request (NewPlantDetailAPI Ts_month (f m))) ms) = []" for f ms
    by (induction ms) (simp_all add: day_requests_def)
  have req: "day_requests (events s') = map strftime_ymd ?dr"
    using day_loop_day_requests[OF dl] e1 e' ev mreq by (simp add: day_requests_def)
  have first: "\<exists>rest. day_requests (events s') = strftime_ymd start_date # rest"
    if "0 \<le> diff_days end_date start_date"
    using daterange_nonempty[OF that] req by auto
  have none: "day_requests (events s') = []" if "diff_days end_date start_date < 0"
    using daterange_empty[OF that] req by simp
  have keep: "\<exists>x'. map_of (days s') k = Some x' \<and> samples x' = samples x"
    if "map_of cached k = Some x" "k \<notin> set (map strftime_ymd ?dr)" for k x
  proof -
    from that(1) dc d1 have "map_of (days s1) k = Some x" by simp
    from day_loop_other[OF dl _ this] that(2)
    have "map_of (days (fst (day_loop srv ?nr ?dr 0 s1))) k = Some x" by simp
    from month_loop_samples[OF ml this] d2 show ?thesis by simp
  qed
  have a: "strptime_ymd (Max (set (map fst cached))) = Inr start_date" using st mk by simp
  have b: "daterange start_date end_date \<noteq> [] \<longrightarrow> hd (daterange start_date end_date) = start_date"
    using hd_daterange[of start_date end_date] by simp
  have f: "fst (downloadgrowattdata srv start_date end_date s) = s'" using d by simp
  show ?thesis
    unfolding f using a en req b first none keep by blast
qed

text \<open>
  The theorem at the cache that ends on March 10, synchronised on March 12, and at the
  cache whose latest key is March 31, synchronised on the same day.
\<close>

theorem fetch_starts_at_latest_cached_date_witness:
  "map_of march_files (picklefile ini_template 2020) = Some (False, 1000, march_cache)
   \<and> march_cache \<noteq> []
   \<and> load_and_range march_now ini_template march_files (Some 2020) True
       = Inr (march_loaded, march_start, march_now)
   \<and> snd (downloadgrowattdata march_server march_start march_now march_loaded) = Inr True
   \<and> strptime_ymd (Max (set (map fst march_cache))) = Inr march_start
   \<and> 0 \<le> diff_days march_now march_start
   \<and> day_requests (events (fst (downloadgrowattdata march_server march_start march_now march_loaded)))
       = [''2020-03-10'', ''2020-03-11'', ''2020-03-12'']
   \<and> map_of future_files (picklefile ini_template 2020) = Some (False, 1000, future_cache)
   \<and> future_cache \<noteq> []
   \<and> load_and_range march_now ini_template future_files (Some 2020) True
       = Inr (future_loaded, future_start, march_now)
   \<and> snd (downloadgrowattdata march_server future_start march_now future_loaded) = Inr True
   \<and> strptime_ymd (Max (set (map fst future_cache))) = Inr future_start
   \<and> diff_days march_now future_start < 0
   \<and> day_requests (events (fst (downloadgrowattdata march_server future_start march_now future_loaded)))
       = []"
proof -
  have h2: "march_cache \<noteq> []" by code_simp
  have h4: "snd (downloadgrowattdata march_server march_start march_now march_loaded) = Inr True"
    by code_simp
  have n: "0 \<le> diff_days march_now march_start" by code_simp
  have r: "map strftime_ymd (daterange march_start march_now)
      = [''2020-03-10'', ''2020-03-11'', ''2020-03-12'']" by code_simp
  have g1: "map_of future_files (picklefile ini_template 2020) = Some (False, 1000, future_cache)"
    by code_simp
  have g2: "future_cache \<noteq> []" by code_simp
  have g3: "load_and_range march_now ini_template future_files (Some 2020) True
       = Inr (future_loaded, future_start, march_now)" by code_simp
  have g4: "snd (downloadgrowattdata march_server future_start march_now future_loaded) = Inr True"
    by code_simp
  have m: "diff_days march_now future_start < 0" by code_simp
  note A = fetch_starts_at_latest_cached_date [OF march_file h2 march_range h4]
  note B = fetch_starts_at_latest_cached_date [OF g1 g2 g3 g4]
  have a1: "strptime_ymd (Max (set (map fst march_cache))) = Inr march_start"
    using A by blast
  have "day_requests (events (fst (downloadgrowattdata march_server march_start march_now march_loaded)))
       = map strftime_ymd (daterange march_start march_now)"
    using A by blast
  then have a2: "day_requests (events (fst (downloadgrowattdata march_server march_start march_now march_loaded)))
       = [''2020-03-10'', ''2020-03-11'', ''2020-03-12'']"
    using r by simp
  have b1: "strptime_ymd (Max (set (map fst future_cache))) = Inr future_start"
    using B by blast
  have b2: "day_requests (events (fst (downloadgrowattdata march_server future_start march_now future_loaded)))
       = []"
    using B m by blast
  show ?thesis
    by (intro conjI) (fact march_file h2 march_range h4 a1 n a2 g1 g2 g3 g4 b1 m b2)+
qed

text \<open>
  Claim C1 as stated fails at the cache that ends on March 10: March 10 is asked for
  again, and its record after the synchronisation is not the cached one.
\<close>

theorem refetch_latest_day_counterexample:
  "\<not> isl (GrowattServerData_init march_server march_now ini_template march_files (Some 2020) False)
   \<and> day_requests (events (projr
        (GrowattServerData_init march_server march_now ini_template march_files (Some 2020) False)))
       = [''2020-03-10'', ''2020-03-11'', ''2020-03-12'']
   \<and> map_of march_cache ''2020-03-10''
       = Some \<lparr>datestr = ''2020-03-10'', todayenergy = 4, samples = [(''12:00'', Float 900)]\<rparr>
   \<and> map_of (days (projr
        (GrowattServerData_init march_server march_now ini_template march_files (Some 2020) False)))
        ''2020-03-10''
       = Some \<lparr>datestr = ''2020-03-10'', todayenergy = 7, samples = [(''12:00'', Float 1500)]\<rparr>"
  by code_simp

subsection \<open>Properties of the renderer\<close>

lemma plot_days_draws:
  "plot_days prj gsd ks = (ls, None) \<Longrightarrow> ls = concat (map (\<lambda>d. fst (plot_day prj gsd d)) ks)"
  by (induction ks arbitrary: ls) (auto split: prod.splits option.splits)

lemma march_first_offset: "isodate_diff ''2020-03-01'' (format_jan1 2020) = Inr 60"
  by code_simp

text \<open>
  Claim C2, as amended. For a day of the snapshot whose sample map is empty the renderer
  draws nothing, neither the energy bar nor a heatmap segment, whatever the total energy
  is. For a day with at least one sample the first line drawn is the energy bar, from the
  bottom margin upwards by the energy times \<open>pixels_per_kwh\<close>.
\<close>

theorem plot_day_bar_needs_samples:
  assumes "map_of (days gsd) d = Some r"
    and "isodate_diff d (format_jan1 (year gsd)) = Inr n"
  shows "(samples r = [] \<longrightarrow> plot_day prj gsd d = ([], None)) \<and>
         (samples r \<noteq> [] \<longrightarrow>
            (\<exists>segs e. plot_day prj gsd d =
               (Line [real_of_int (leftmargin prj + n * pixels_per_day prj) + real_of_int (pixels_per_day prj) / 2,
                      real_of_int (height prj - bottommargin prj),
                      real_of_int (leftmargin prj + n * pixels_per_day prj) + real_of_int (pixels_per_day prj) / 2,
                      real_of_int (height prj - bottommargin prj)
                        - todayenergy r * real_of_int (pixels_per_kwh prj)]
                  (Some (RGB 0 0 128)) (linewidth prj) # segs, e)))"
  using assms by (auto simp: plot_day_def Let_def split: prod.splits)

text \<open>The theorem at a day with the total 5.2 and no samples.\<close>

theorem plot_day_bar_needs_samples_witness:
  "map_of (days snapshot_total_only) ''2020-03-01'' = Some \<lparr>datestr = ''2020-03-01'', todayenergy = 5.2, samples = []\<rparr>
   \<and> isodate_diff ''2020-03-01'' (format_jan1 (year snapshot_total_only)) = Inr 60
   \<and> plot_day Projection_init snapshot_total_only ''2020-03-01'' = ([], None)"
  using plot_day_bar_needs_samples [of snapshot_total_only "''2020-03-01''"
      "\<lparr>datestr = ''2020-03-01'', todayenergy = 5.2, samples = []\<rparr>" 60 Projection_init]
  by (simp add: snapshot_total_only_def new_object_def march_first_offset)

text \<open>
  Claim C2 as stated fails on the snapshot whose March 1 has the total 5.2 and no
  samples: the whole drawing holds the bar and the segment of March 2 and no line for
  March 1.
\<close>

theorem energy_bar_counterexample:
  "map_of (days snapshot_total_only) ''2020-03-01''
     = Some \<lparr>datestr = ''2020-03-01'', todayenergy = 5.2, samples = []\<rparr>
   \<and> fst (plot_day Projection_init snapshot_total_only ''2020-03-01'') = []
   \<and> plot_production_pil Projection_init snapshot_total_only =
       ([Line [469 / 2, 750, 469 / 2, 726] (Some (RGB 0 0 128)) 2,
         Line [469 / 2, 390, 469 / 2, 775 / 2] (Some (Color ''#00FF00'')) 2], None)"
  by code_simp

end
